theory Spec2Isabelle
  imports Complex_Main "HOL-Library.Stream"
begin

section \<open>Values, errors and the random stream\<close>

text \<open>
  The two programs, \<^verbatim>\<open>cilindro_ga.py\<close> and \<^verbatim>\<open>placa_plana_ga.py\<close>, compute with
  numpy's double precision numbers. Genes and parameters are modelled as real numbers
  and a finite result of an arithmetic operation as the exact result: rounding,
  absorption and overflow are not modelled. The value of a numpy expression can also
  be one of the three special values that numpy produces instead of raising: dividing
  by zero gives an infinity, and \<open>log\<close> of a negative number, \<open>0/0\<close>, \<open>inf - inf\<close> and
  \<open>0 * inf\<close> give nan. The sign of a zero is not tracked: the only zero divisor the
  programs reach is \<open>log 1\<close>, which is \<open>+0.0\<close>.

  The theorems of this theory are therefore kept to statements that do not depend on
  the exact value of a rounded result: which branch a comparison of given values
  selects, which value is stored where, equalities between values that the programs
  copy or clip, and inequalities that rounding to nearest preserves. Strict
  inequalities between computed results, and finiteness of a computed result, are not
  stated.
\<close>

datatype npfloat = Fin real | PInf | NInf | NaN

datatype error = ValueError | IndexError

fun isfinite :: "npfloat \<Rightarrow> bool" where
  "isfinite (Fin x) = True"
| "isfinite PInf = False"
| "isfinite NInf = False"
| "isfinite NaN = False"

fun np_neg :: "npfloat \<Rightarrow> npfloat" where
  "np_neg (Fin x) = Fin (- x)"
| "np_neg PInf = NInf"
| "np_neg NInf = PInf"
| "np_neg NaN = NaN"

fun np_add :: "npfloat \<Rightarrow> npfloat \<Rightarrow> npfloat" where
  "np_add (Fin a) (Fin b) = Fin (a + b)"
| "np_add (Fin a) PInf = PInf"
| "np_add (Fin a) NInf = NInf"
| "np_add PInf (Fin b) = PInf"
| "np_add PInf PInf = PInf"
| "np_add NInf (Fin b) = NInf"
| "np_add NInf NInf = NInf"
| "np_add PInf NInf = NaN"
| "np_add NInf PInf = NaN"
| "np_add NaN y = NaN"
| "np_add x NaN = NaN"

definition np_sub :: "npfloat \<Rightarrow> npfloat \<Rightarrow> npfloat" where
  "np_sub x y = np_add x (np_neg y)"

text \<open>An infinity times a finite number: the sign of the product, nan when the number is 0.\<close>

definition inf_times :: "bool \<Rightarrow> real \<Rightarrow> npfloat" where
  "inf_times positive b =
     (if b = 0 then NaN else if (0 < b) = positive then PInf else NInf)"

fun np_mul :: "npfloat \<Rightarrow> npfloat \<Rightarrow> npfloat" where
  "np_mul (Fin a) (Fin b) = Fin (a * b)"
| "np_mul (Fin a) PInf = inf_times True a"
| "np_mul (Fin a) NInf = inf_times False a"
| "np_mul PInf (Fin b) = inf_times True b"
| "np_mul NInf (Fin b) = inf_times False b"
| "np_mul PInf PInf = PInf"
| "np_mul NInf NInf = PInf"
| "np_mul PInf NInf = NInf"
| "np_mul NInf PInf = NInf"
| "np_mul NaN y = NaN"
| "np_mul x NaN = NaN"

fun np_div :: "npfloat \<Rightarrow> npfloat \<Rightarrow> npfloat" where
  "np_div (Fin a) (Fin b) =
     (if b \<noteq> 0 then Fin (a / b)
      else if 0 < a then PInf else if a < 0 then NInf else NaN)"
| "np_div (Fin a) PInf = Fin 0"
| "np_div (Fin a) NInf = Fin 0"
| "np_div PInf (Fin b) = (if 0 \<le> b then PInf else NInf)"
| "np_div NInf (Fin b) = (if 0 \<le> b then NInf else PInf)"
| "np_div PInf PInf = NaN"
| "np_div PInf NInf = NaN"
| "np_div NInf PInf = NaN"
| "np_div NInf NInf = NaN"
| "np_div NaN y = NaN"
| "np_div x NaN = NaN"

text \<open>\<^verbatim>\<open>np.log\<close>: minus infinity at 0 and nan below 0, each with a warning only.\<close>

definition np_log :: "real \<Rightarrow> npfloat" where
  "np_log x = (if 0 < x then Fin (ln x) else if x = 0 then NInf else NaN)"

text \<open>The comparison \<^verbatim>\<open><\<close>: false as soon as one side is nan.\<close>

fun np_less :: "npfloat \<Rightarrow> npfloat \<Rightarrow> bool" where
  "np_less (Fin a) (Fin b) = (a < b)"
| "np_less (Fin a) PInf = True"
| "np_less NInf (Fin b) = True"
| "np_less NInf PInf = True"
| "np_less x y = False"

text \<open>The comparison \<^verbatim>\<open><=\<close>, in which the claims about History are stated.\<close>

fun np_le :: "npfloat \<Rightarrow> npfloat \<Rightarrow> bool" where
  "np_le (Fin a) (Fin b) = (a \<le> b)"
| "np_le NaN y = False"
| "np_le x NaN = False"
| "np_le NInf y = True"
| "np_le x PInf = True"
| "np_le x y = False"

text \<open>
  \<^verbatim>\<open>np.argmin\<close> and \<^verbatim>\<open>np.argmax\<close>: the first index of the least (greatest) entry, the
  first nan when there is one, ValueError on an empty array. The scan keeps the index
  and the value of the best entry so far.
\<close>

fun argmin_scan :: "nat \<Rightarrow> npfloat \<Rightarrow> nat \<Rightarrow> npfloat list \<Rightarrow> nat" where
  "argmin_scan bi bv i [] = bi"
| "argmin_scan bi bv i (x # xs) =
     (if bv \<noteq> NaN \<and> (x = NaN \<or> np_less x bv) then argmin_scan i x (Suc i) xs
      else argmin_scan bi bv (Suc i) xs)"

fun np_argmin :: "npfloat list \<Rightarrow> error + nat" where
  "np_argmin [] = Inl ValueError"
| "np_argmin (x # xs) = Inr (argmin_scan 0 x 1 xs)"

fun argmax_scan :: "nat \<Rightarrow> npfloat \<Rightarrow> nat \<Rightarrow> npfloat list \<Rightarrow> nat" where
  "argmax_scan bi bv i [] = bi"
| "argmax_scan bi bv i (x # xs) =
     (if bv \<noteq> NaN \<and> (x = NaN \<or> np_less bv x) then argmax_scan i x (Suc i) xs
      else argmax_scan bi bv (Suc i) xs)"

fun np_argmax :: "npfloat list \<Rightarrow> error + nat" where
  "np_argmax [] = Inl ValueError"
| "np_argmax (x # xs) = Inr (argmax_scan 0 x 1 xs)"

text \<open>\<^verbatim>\<open>a.max()\<close>: the greatest entry, nan when there is one, ValueError when empty.\<close>

fun np_max :: "npfloat list \<Rightarrow> error + npfloat" where
  "np_max xs = (case np_argmax xs of Inl e \<Rightarrow> Inl e | Inr i \<Rightarrow> Inr (xs ! i))"

text \<open>\<^verbatim>\<open>a.mean()\<close>: the sum over the length; nan (with a warning) when empty.\<close>

definition np_mean :: "npfloat list \<Rightarrow> npfloat" where
  "np_mean xs = np_div (foldl np_add (Fin 0) xs) (Fin (real (length xs)))"

text \<open>Reading entry \<open>i\<close> of an array: IndexError outside it.\<close>

definition item :: "'a list \<Rightarrow> nat \<Rightarrow> error + 'a" where
  "item xs i = (if i < length xs then Inr (xs ! i) else Inl IndexError)"

text \<open>\<^verbatim>\<open>np.clip(x, low, high)\<close> is \<open>minimum(maximum(x, low), high)\<close>.\<close>

definition clip :: "real \<Rightarrow> real \<Rightarrow> real \<Rightarrow> real" where
  "clip x low high = min (max x low) high"

subsection \<open>The global random generator\<close>

text \<open>
  Both programs draw from numpy's process-wide generator. Its state is modelled as the
  stream of the raw outcomes still to come, threaded through every draw. A uniform
  draw is the fractional part of the next outcome, so it lies in \<open>[0, 1)\<close> whatever
  the stream holds; an integer draw below \<open>n\<close> scales a uniform draw; a normal draw
  scales the outcome itself. Every sequence of results the generator can give is the
  result of some stream.
\<close>

type_synonym rng = "real stream"

text \<open>\<^verbatim>\<open>np.random.rand()\<close>\<close>

definition rand :: "rng \<Rightarrow> real \<times> rng" where
  "rand g = (frac (shd g), stl g)"

text \<open>\<^verbatim>\<open>np.random.uniform(low, high, size=n)\<close>: \<open>low + (high - low) * u\<close> for each draw.\<close>

fun uniform :: "real \<Rightarrow> real \<Rightarrow> nat \<Rightarrow> rng \<Rightarrow> real list \<times> rng" where
  "uniform low high 0 g = ([], g)"
| "uniform low high (Suc n) g =
     (let (u, g1) = rand g; (xs, g2) = uniform low high n g1
      in ((low + (high - low) * u) # xs, g2))"

text \<open>\<^verbatim>\<open>np.random.randint(0, high, size=n)\<close>: ValueError unless \<open>0 < high\<close>.\<close>

fun randint_draws :: "nat \<Rightarrow> nat \<Rightarrow> rng \<Rightarrow> nat list \<times> rng" where
  "randint_draws high 0 g = ([], g)"
| "randint_draws high (Suc n) g =
     (let (u, g1) = rand g; (xs, g2) = randint_draws high n g1
      in (nat \<lfloor>u * real high\<rfloor> # xs, g2))"

definition randint :: "int \<Rightarrow> nat \<Rightarrow> rng \<Rightarrow> error + (nat list \<times> rng)" where
  "randint high n g =
     (if high \<le> 0 then Inl ValueError else Inr (randint_draws (nat high) n g))"

text \<open>\<^verbatim>\<open>np.random.normal(loc, scale)\<close>: ValueError when \<open>scale < 0\<close>.\<close>

definition normal :: "real \<Rightarrow> real \<Rightarrow> rng \<Rightarrow> error + (real \<times> rng)" where
  "normal loc scale g =
     (if scale < 0 then Inl ValueError else Inr (loc + scale * shd g, stl g))"

text \<open>
  \<^verbatim>\<open>np.random.seed(seed)\<close> replaces the state by one computed from the seed alone, and
  raises ValueError unless \<open>0 \<le> seed < 2^32\<close>. The generator's own seeding function is
  the parameter \<open>mt\<close>.
\<close>

definition seed_rng :: "(int \<Rightarrow> rng) \<Rightarrow> int \<Rightarrow> error + rng" where
  "seed_rng mt seed = (if 0 \<le> seed \<and> seed < 2 ^ 32 then Inr (mt seed) else Inl ValueError)"

text \<open>
  An array handed back by a function is either a view of a row of the population
  (it shares the population's buffer) or an array that owns its data.
\<close>

datatype 'a array_ref = RowView nat | OwnData 'a

text \<open>\<^verbatim>\<open>.copy()\<close> of such an array, with \<open>pop\<close> the population a view refers to.\<close>

fun copy_of :: "'a list \<Rightarrow> 'a array_ref \<Rightarrow> 'a" where
  "copy_of pop (RowView i) = pop ! i"
| "copy_of pop (OwnData x) = x"

section \<open>cilindro_ga.py\<close>

definition r1 :: real where "r1 = 1 / 2"
definition L_cil :: real where "L_cil = 2"
definition dT_cil :: real where "dT_cil = 180"
definition Q_max :: real where "Q_max = 120"
definition k_max :: real where "k_max = 84 / 1000"

definition heat_flow_cil :: "real \<Rightarrow> real \<Rightarrow> npfloat" where
  "heat_flow_cil k t =
     (let r2 = r1 + t
      in np_div (Fin (2 * pi * k * L_cil * dT_cil)) (np_log (r2 / r1)))"

text \<open>
  The statements of \<^verbatim>\<open>objective\<close> that follow \<^verbatim>\<open>Q = heat_flow(k, t)\<close>, as a function
  of the value \<open>Q\<close> that was computed: the fitness starts as \<open>t\<close>, and each of the two
  \<^verbatim>\<open>if\<close> statements adds its penalty.
\<close>

definition penalised_cil :: "npfloat \<Rightarrow> real \<Rightarrow> real \<Rightarrow> real \<Rightarrow> npfloat" where
  "penalised_cil Q k t penalty_factor =
     (let fitness = Fin t;
          fitness = (if np_less (Fin Q_max) Q
                     then np_add fitness
                            (np_mul (Fin penalty_factor)
                               (np_mul (np_sub Q (Fin Q_max)) (np_sub Q (Fin Q_max))))
                     else fitness);
          fitness = (if k > k_max
                     then np_add fitness (Fin (penalty_factor * (k - k_max)\<^sup>2))
                     else fitness)
      in fitness)"

text \<open>
  \<^verbatim>\<open>objective(individual, penalty_factor)\<close>. The unpacking \<^verbatim>\<open>k, t = individual\<close> raises
  ValueError unless the individual has two genes.
\<close>

fun objective :: "real list \<Rightarrow> real \<Rightarrow> error + npfloat" where
  "objective [k, t] penalty_factor =
     Inr (penalised_cil (heat_flow_cil k t) k t penalty_factor)"
| "objective individual penalty_factor = Inl ValueError"

text \<open>The inner function \<^verbatim>\<open>evaluate(pop)\<close> of \<^verbatim>\<open>run_GA\<close>.\<close>

fun evaluate :: "real list list \<Rightarrow> real \<Rightarrow> error + npfloat list" where
  "evaluate [] penalty_factor = Inr []"
| "evaluate (ind # pop) penalty_factor =
     (case objective ind penalty_factor of
        Inl e \<Rightarrow> Inl e
      | Inr f \<Rightarrow>
          (case evaluate pop penalty_factor of
             Inl e \<Rightarrow> Inl e
           | Inr fs \<Rightarrow> Inr (f # fs)))"

text \<open>
  The initial population: column \<open>i\<close> of the \<open>pop_size \<times> n_var\<close> array is filled
  with \<open>pop_size\<close> uniform draws from \<open>bounds[i]\<close>, one column after the other.
\<close>

fun init_columns :: "(real \<times> real) list \<Rightarrow> nat \<Rightarrow> rng \<Rightarrow> real list list \<times> rng" where
  "init_columns [] n g = ([], g)"
| "init_columns ((low, high) # bounds) n g =
     (let (col, g1) = uniform low high n g; (cols, g2) = init_columns bounds n g1
      in (col # cols, g2))"

definition rows_of :: "real list list \<Rightarrow> nat \<Rightarrow> real list list" where
  "rows_of cols n = map (\<lambda>j. map (\<lambda>col. col ! j) cols) [0..<n]"

text \<open>
  The inner function \<^verbatim>\<open>tournament_selection()\<close>: it reads \<open>population\<close>, \<open>fitness\<close>
  and \<open>pop_size\<close> of the enclosing call and returns \<^verbatim>\<open>population[i]\<close>, a view of the
  winning row.
\<close>

definition tournament_selection_cil ::
  "real list list \<Rightarrow> npfloat list \<Rightarrow> int \<Rightarrow> rng
     \<Rightarrow> error + (real list array_ref \<times> rng)" where
  "tournament_selection_cil population fitness pop_size g =
     (case randint pop_size 2 g of
        Inl e \<Rightarrow> Inl e
      | Inr (idxs, g1) \<Rightarrow>
          (case idxs of
             [i1, i2] \<Rightarrow>
               (case item fitness i1 of
                  Inl e \<Rightarrow> Inl e
                | Inr f1 \<Rightarrow>
                    (case item fitness i2 of
                       Inl e \<Rightarrow> Inl e
                     | Inr f2 \<Rightarrow>
                         (let i = (if np_less f1 f2 then i1 else i2)
                          in case item population i of
                               Inl e \<Rightarrow> Inl e
                             | Inr row \<Rightarrow> Inr (RowView i, g1))))
           | _ \<Rightarrow> Inl ValueError))"

text \<open>
  The mutation loop \<^verbatim>\<open>for i in range(n_var)\<close> over one child: a gene is perturbed and
  clipped only when its own draw falls below \<open>mutation_rate\<close>.
\<close>

fun mutate_genes ::
  "(real \<times> real) list \<Rightarrow> real \<Rightarrow> real \<Rightarrow> nat list \<Rightarrow> real list \<Rightarrow> rng
     \<Rightarrow> error + (real list \<times> rng)" where
  "mutate_genes bounds mutation_rate mutation_scale [] child g = Inr (child, g)"
| "mutate_genes bounds mutation_rate mutation_scale (i # is) child g =
     (let (u, g1) = rand g in
      if u < mutation_rate then
        (let (low, high) = bounds ! i; var_range = high - low in
         case item child i of
           Inl e \<Rightarrow> Inl e
         | Inr x \<Rightarrow>
             (case normal 0 (mutation_scale * var_range) g1 of
                Inl e \<Rightarrow> Inl e
              | Inr (z, g2) \<Rightarrow>
                  mutate_genes bounds mutation_rate mutation_scale is
                    (child[i := clip (x + z) low high]) g2))
      else mutate_genes bounds mutation_rate mutation_scale is child g1)"

text \<open>
  The crossover block of the loop body: with a draw below \<open>crossover_rate\<close>, one blend
  coefficient \<open>alpha\<close> is drawn for all genes; otherwise the children are copies of
  the parents.
\<close>

definition crossover_cil ::
  "real list \<Rightarrow> real list \<Rightarrow> real \<Rightarrow> rng \<Rightarrow> real list \<times> real list \<times> rng" where
  "crossover_cil parent1 parent2 crossover_rate g =
     (let (u, g1) = rand g in
      if u < crossover_rate then
        (let (alpha, g2) = rand g1
         in (map2 (\<lambda>a b. alpha * a + (1 - alpha) * b) parent1 parent2,
             map2 (\<lambda>a b. (1 - alpha) * a + alpha * b) parent1 parent2, g2))
      else (parent1, parent2, g1))"

text \<open>
  One pass of the body of \<^verbatim>\<open>while len(new_population) < pop_size\<close>: two parents,
  crossover, then each child is mutated and appended, and the \<^verbatim>\<open>break\<close> after the
  first child leaves the second one out (unmutated) when the population is full.
\<close>

definition breed_cil ::
  "(real \<times> real) list \<Rightarrow> int \<Rightarrow> real \<Rightarrow> real \<Rightarrow> real \<Rightarrow> real list list \<Rightarrow> npfloat list
     \<Rightarrow> real list list \<Rightarrow> rng \<Rightarrow> error + (real list list \<times> rng)" where
  "breed_cil bounds pop_size crossover_rate mutation_rate mutation_scale population fitness
       new_population g =
     (case tournament_selection_cil population fitness pop_size g of
        Inl e \<Rightarrow> Inl e
      | Inr (s1, g1) \<Rightarrow>
     (case tournament_selection_cil population fitness pop_size g1 of
        Inl e \<Rightarrow> Inl e
      | Inr (s2, g2) \<Rightarrow>
     (let parent1 = copy_of population s1;
          parent2 = copy_of population s2;
          (child1, child2, g4) = crossover_cil parent1 parent2 crossover_rate g2
      in case mutate_genes bounds mutation_rate mutation_scale [0..<length bounds] child1 g4 of
           Inl e \<Rightarrow> Inl e
         | Inr (c1, g5) \<Rightarrow>
             if pop_size \<le> int (length (new_population @ [c1]))
             then Inr (new_population @ [c1], g5)
             else
               (case mutate_genes bounds mutation_rate mutation_scale [0..<length bounds]
                       child2 g5 of
                  Inl e \<Rightarrow> Inl e
                | Inr (c2, g6) \<Rightarrow> Inr (new_population @ [c1, c2], g6)))))"

lemma breed_cil_longer:
  "breed_cil bounds pop_size cr mr ms population fitness new_population g = Inr (np, g')
   \<Longrightarrow> length new_population < length np"
  by (auto simp: breed_cil_def Let_def split: sum.splits prod.splits if_splits)

function breed_loop_cil ::
  "(real \<times> real) list \<Rightarrow> int \<Rightarrow> real \<Rightarrow> real \<Rightarrow> real \<Rightarrow> real list list \<Rightarrow> npfloat list
     \<Rightarrow> real list list \<Rightarrow> rng \<Rightarrow> error + (real list list \<times> rng)" where
  "breed_loop_cil bounds pop_size crossover_rate mutation_rate mutation_scale population fitness
       new_population g =
     (if int (length new_population) < pop_size then
        (case breed_cil bounds pop_size crossover_rate mutation_rate mutation_scale
                population fitness new_population g of
           Inl e \<Rightarrow> Inl e
         | Inr (new_population', g') \<Rightarrow>
             breed_loop_cil bounds pop_size crossover_rate mutation_rate mutation_scale
               population fitness new_population' g')
      else Inr (new_population, g))"
  by pat_completeness auto
termination
  by (relation "measure (\<lambda>(bounds, pop_size, cr, mr, ms, population, fitness, new_population, g).
        nat (pop_size - int (length new_population)))")
     (auto dest: breed_cil_longer)

text \<open>The five history lists of \<^verbatim>\<open>run_GA\<close>, and its result dictionary.\<close>

record history_cil =
  best_hist :: "npfloat list"
  worst_hist :: "npfloat list"
  avg_hist :: "npfloat list"
  best_t_hist :: "real list"
  best_Q_hist :: "npfloat list"

record result_cil = history_cil +
  best_individual :: "real list"
  best_fitness :: npfloat

text \<open>
  One pass of the body of \<^verbatim>\<open>for gen in range(generations)\<close>, on the loop's variables
  \<open>population\<close>, \<open>fitness\<close>, the histories and the generator.
\<close>

fun generation_cil ::
  "(real \<times> real) list \<Rightarrow> int \<Rightarrow> real \<Rightarrow> real \<Rightarrow> real \<Rightarrow> real
     \<Rightarrow> real list list \<times> npfloat list \<times> history_cil \<times> rng
     \<Rightarrow> error + (real list list \<times> npfloat list \<times> history_cil \<times> rng)" where
  "generation_cil bounds pop_size crossover_rate mutation_rate mutation_scale penalty_factor
       (population, fitness, h, g) =
     (case np_argmin fitness of
        Inl e \<Rightarrow> Inl e
      | Inr best_idx \<Rightarrow>
     (case item population best_idx of
        Inl e \<Rightarrow> Inl e
      | Inr best_ind \<Rightarrow>
     (case item fitness best_idx of
        Inl e \<Rightarrow> Inl e
      | Inr best_fit \<Rightarrow>
     (case np_max fitness of
        Inl e \<Rightarrow> Inl e
      | Inr worst \<Rightarrow>
     (case best_ind of
        [best_k_gen, best_t_gen] \<Rightarrow>
          (let best_Q_gen = heat_flow_cil best_k_gen best_t_gen;
               h' = \<lparr>best_hist = best_hist h @ [best_fit],
                     worst_hist = worst_hist h @ [worst],
                     avg_hist = avg_hist h @ [np_mean fitness],
                     best_t_hist = best_t_hist h @ [best_t_gen],
                     best_Q_hist = best_Q_hist h @ [best_Q_gen]\<rparr>
           in case breed_loop_cil bounds pop_size crossover_rate mutation_rate mutation_scale
                     population fitness [best_ind] g of
                Inl e \<Rightarrow> Inl e
              | Inr (new_population, g') \<Rightarrow>
                  (case evaluate new_population penalty_factor of
                     Inl e \<Rightarrow> Inl e
                   | Inr fitness' \<Rightarrow> Inr (new_population, fitness', h', g')))
      | _ \<Rightarrow> Inl ValueError)))))"

fun ga_loop_cil ::
  "(real \<times> real) list \<Rightarrow> int \<Rightarrow> real \<Rightarrow> real \<Rightarrow> real \<Rightarrow> real \<Rightarrow> nat
     \<Rightarrow> real list list \<times> npfloat list \<times> history_cil \<times> rng
     \<Rightarrow> error + (real list list \<times> npfloat list \<times> history_cil \<times> rng)" where
  "ga_loop_cil bounds pop_size crossover_rate mutation_rate mutation_scale penalty_factor 0 s =
     Inr s"
| "ga_loop_cil bounds pop_size crossover_rate mutation_rate mutation_scale penalty_factor
       (Suc n) s =
     (case generation_cil bounds pop_size crossover_rate mutation_rate mutation_scale
             penalty_factor s of
        Inl e \<Rightarrow> Inl e
      | Inr s' \<Rightarrow>
          ga_loop_cil bounds pop_size crossover_rate mutation_rate mutation_scale
            penalty_factor n s')"

text \<open>
  The state of \<^verbatim>\<open>run_GA\<close> when it enters the generation loop: the generator reseeded,
  the population drawn and evaluated, the histories empty. \<^verbatim>\<open>np.zeros\<close> raises
  ValueError on a negative \<open>pop_size\<close>.
\<close>

definition init_cil ::
  "(int \<Rightarrow> rng) \<Rightarrow> (real \<times> real) list \<Rightarrow> int \<Rightarrow> real \<Rightarrow> int
     \<Rightarrow> error + (real list list \<times> npfloat list \<times> history_cil \<times> rng)" where
  "init_cil mt bounds pop_size penalty_factor seed =
     (case seed_rng mt seed of
        Inl e \<Rightarrow> Inl e
      | Inr g \<Rightarrow>
          if pop_size < 0 then Inl ValueError
          else
            (let (cols, g1) = init_columns bounds (nat pop_size) g;
                 population = rows_of cols (nat pop_size)
             in case evaluate population penalty_factor of
                  Inl e \<Rightarrow> Inl e
                | Inr fitness \<Rightarrow>
                    Inr (population, fitness,
                         \<lparr>best_hist = [], worst_hist = [], avg_hist = [],
                          best_t_hist = [], best_Q_hist = []\<rparr>, g1)))"

text \<open>
  \<^verbatim>\<open>run_GA\<close>. \<open>g0\<close> is the state of the global generator when the function is called,
  which \<^verbatim>\<open>np.random.seed(seed)\<close> overwrites; the state it leaves behind is returned
  with the result. \<^verbatim>\<open>range(generations)\<close> is empty for \<open>generations \<le> 0\<close>.
\<close>

definition run_GA_cil ::
  "(int \<Rightarrow> rng) \<Rightarrow> rng \<Rightarrow> (real \<times> real) list \<Rightarrow> int \<Rightarrow> int \<Rightarrow> real \<Rightarrow> real \<Rightarrow> real \<Rightarrow> real
     \<Rightarrow> int \<Rightarrow> error + (result_cil \<times> rng)" where
  "run_GA_cil mt g0 bounds pop_size generations crossover_rate mutation_rate mutation_scale
       penalty_factor seed =
     (case init_cil mt bounds pop_size penalty_factor seed of
        Inl e \<Rightarrow> Inl e
      | Inr s0 \<Rightarrow>
     (case ga_loop_cil bounds pop_size crossover_rate mutation_rate mutation_scale
             penalty_factor (nat generations) s0 of
        Inl e \<Rightarrow> Inl e
      | Inr (population, fitness, h, g) \<Rightarrow>
     (case np_argmin fitness of
        Inl e \<Rightarrow> Inl e
      | Inr best_idx \<Rightarrow>
     (case item population best_idx of
        Inl e \<Rightarrow> Inl e
      | Inr best_ind \<Rightarrow>
     (case item fitness best_idx of
        Inl e \<Rightarrow> Inl e
      | Inr best_fit \<Rightarrow>
          Inr (\<lparr>best_hist = best_hist h, worst_hist = worst_hist h, avg_hist = avg_hist h,
                best_t_hist = best_t_hist h, best_Q_hist = best_Q_hist h,
                best_individual = best_ind, best_fitness = best_fit\<rparr>, g))))))"

section \<open>placa_plana_ga.py\<close>

definition r_i :: real where "r_i = 3 / 100"
definition L_pp :: real where "L_pp = 1"
definition T_i :: real where "T_i = 500"
definition T_inf :: real where "T_inf = 75"
definition dT_pp :: real where "dT_pp = T_i - T_inf"
definition h_pp :: real where "h_pp = 10"
definition Q_max_pp :: real where "Q_max_pp = 120"
definition t_min :: real where "t_min = 25 / 1000"
definition t_max :: real where "t_max = 200 / 1000"
definition k_min :: real where "k_min = 50 / 1000"
definition k_max_pp :: real where "k_max_pp = 84 / 1000"

definition heat_flow_pp :: "real \<Rightarrow> real \<Rightarrow> npfloat" where
  "heat_flow_pp k t =
     (let r_o = r_i + t;
          denom = np_add (np_div (np_log (r_o / r_i)) (Fin k))
                    (np_div (Fin 1) (Fin (h_pp * r_o)))
      in np_div (Fin (2 * pi * L_pp * dT_pp)) denom)"

text \<open>The base objective of \<^verbatim>\<open>fitness\<close>: \<open>t_norm + k_norm\<close>.\<close>

definition base_obj :: "real \<times> real \<Rightarrow> real" where
  "base_obj individual =
     (let (t, k) = individual;
          t_norm = (t - t_min) / (t_max - t_min);
          k_norm = (k - k_min) / (k_max_pp - k_min)
      in t_norm + k_norm)"

text \<open>
  The statements of \<^verbatim>\<open>fitness\<close> that follow \<^verbatim>\<open>Q = heat_flow(k, t)\<close>, as a function of
  the value \<open>Q\<close> that was computed: the base objective plus the penalty.
\<close>

definition penalised_pp :: "npfloat \<Rightarrow> real \<times> real \<Rightarrow> real \<Rightarrow> npfloat" where
  "penalised_pp Q individual penalty_factor =
     (let penalty = (if np_less (Fin Q_max_pp) Q
                     then np_mul (np_mul (np_sub Q (Fin Q_max_pp)) (np_sub Q (Fin Q_max_pp)))
                            (Fin penalty_factor)
                     else Fin 0)
      in np_add (Fin (base_obj individual)) penalty)"

text \<open>
  \<^verbatim>\<open>fitness(individual, penalty_factor)\<close>, an individual being the pair \<open>(t, k)\<close>: the
  guard on the bounds returns \<open>1e9\<close> before the heat flow is computed.
\<close>

definition fitness_pp :: "real \<times> real \<Rightarrow> real \<Rightarrow> npfloat" where
  "fitness_pp individual penalty_factor =
     (let (t, k) = individual in
      if \<not> (t_min \<le> t \<and> t \<le> t_max) \<or> \<not> (k_min \<le> k \<and> k \<le> k_max_pp) then Fin (10 ^ 9)
      else penalised_pp (heat_flow_pp k t) individual penalty_factor)"

text \<open>\<^verbatim>\<open>init_population(pop_size)\<close>: the column of \<open>t\<close>, then the column of \<open>k\<close>.\<close>

definition init_population :: "int \<Rightarrow> rng \<Rightarrow> error + ((real \<times> real) list \<times> rng)" where
  "init_population pop_size g =
     (if pop_size < 0 then Inl ValueError
      else
        (let (ts, g1) = uniform t_min t_max (nat pop_size) g;
             (ks, g2) = uniform k_min k_max_pp (nat pop_size) g1
         in Inr (zip ts ks, g2)))"

text \<open>The fancy index \<^verbatim>\<open>fitnesses[idxs]\<close>.\<close>

fun take_items :: "'a list \<Rightarrow> nat list \<Rightarrow> error + 'a list" where
  "take_items xs [] = Inr []"
| "take_items xs (i # is) =
     (case item xs i of
        Inl e \<Rightarrow> Inl e
      | Inr x \<Rightarrow> (case take_items xs is of Inl e \<Rightarrow> Inl e | Inr ys \<Rightarrow> Inr (x # ys)))"

text \<open>\<^verbatim>\<open>tournament_selection(pop, fitnesses, k_tour)\<close> returns \<^verbatim>\<open>pop[best_idx].copy()\<close>.\<close>

definition tournament_selection_pp ::
  "(real \<times> real) list \<Rightarrow> npfloat list \<Rightarrow> nat \<Rightarrow> rng
     \<Rightarrow> error + ((real \<times> real) array_ref \<times> rng)" where
  "tournament_selection_pp pop fitnesses k_tour g =
     (case randint (int (length pop)) k_tour g of
        Inl e \<Rightarrow> Inl e
      | Inr (idxs, g1) \<Rightarrow>
     (case take_items fitnesses idxs of
        Inl e \<Rightarrow> Inl e
      | Inr fs \<Rightarrow>
     (case np_argmin fs of
        Inl e \<Rightarrow> Inl e
      | Inr j \<Rightarrow>
     (case item idxs j of
        Inl e \<Rightarrow> Inl e
      | Inr best_idx \<Rightarrow>
     (case item pop best_idx of
        Inl e \<Rightarrow> Inl e
      | Inr row \<Rightarrow> Inr (OwnData row, g1))))))"

text \<open>\<^verbatim>\<open>crossover(parent1, parent2, pc)\<close>\<close>

definition crossover ::
  "real \<times> real \<Rightarrow> real \<times> real \<Rightarrow> real \<Rightarrow> rng \<Rightarrow> ((real \<times> real) \<times> (real \<times> real)) \<times> rng" where
  "crossover parent1 parent2 pc g =
     (let (u, g1) = rand g in
      if u < pc then
        (let (alpha, g2) = rand g1;
             c1 = (alpha * fst parent1 + (1 - alpha) * fst parent2,
                   alpha * snd parent1 + (1 - alpha) * snd parent2);
             c2 = (alpha * fst parent2 + (1 - alpha) * fst parent1,
                   alpha * snd parent2 + (1 - alpha) * snd parent1)
         in ((c1, c2), g2))
      else ((parent1, parent2), g1))"

text \<open>
  \<^verbatim>\<open>mutate(individual, pm, sigma_t, sigma_k)\<close>: each gene is perturbed when its draw
  falls below \<open>pm\<close>, and both genes are clipped in every case.
\<close>

definition mutate ::
  "real \<times> real \<Rightarrow> real \<Rightarrow> real \<Rightarrow> real \<Rightarrow> rng \<Rightarrow> error + ((real \<times> real) \<times> rng)" where
  "mutate individual pm sigma_t sigma_k g =
     (let (t, k) = individual;
          (u1, g1) = rand g
      in case (if u1 < pm
               then (case normal 0 sigma_t g1 of
                       Inl e \<Rightarrow> Inl e
                     | Inr (z, g2) \<Rightarrow> Inr (t + z, g2))
               else Inr (t, g1)) of
           Inl e \<Rightarrow> Inl e
         | Inr (t', g2) \<Rightarrow>
             (let (u2, g3) = rand g2
              in case (if u2 < pm
                       then (case normal 0 sigma_k g3 of
                               Inl e \<Rightarrow> Inl e
                             | Inr (z, g4) \<Rightarrow> Inr (k + z, g4))
                       else Inr (k, g3)) of
                   Inl e \<Rightarrow> Inl e
                 | Inr (k', g4) \<Rightarrow>
                     Inr ((clip t' t_min t_max, clip k' k_min k_max_pp), g4)))"

text \<open>The default arguments \<open>k_tour\<close>, \<open>sigma_t\<close> and \<open>sigma_k\<close>, which \<^verbatim>\<open>run_GA\<close> never overrides.\<close>

definition k_tour_default :: nat where "k_tour_default = 3"
definition sigma_t_default :: real where "sigma_t_default = 5 / 1000"
definition sigma_k_default :: real where "sigma_k_default = 2 / 1000"

text \<open>
  One pass of the body of \<^verbatim>\<open>while len(new_pop) < pop_size\<close>: both children are
  mutated, the first is appended, the second only when a slot is left.
\<close>

definition breed_pp ::
  "int \<Rightarrow> real \<Rightarrow> real \<Rightarrow> (real \<times> real) list \<Rightarrow> npfloat list \<Rightarrow> (real \<times> real) list \<Rightarrow> rng
     \<Rightarrow> error + ((real \<times> real) list \<times> rng)" where
  "breed_pp pop_size pc pm pop fitnesses new_pop g =
     (case tournament_selection_pp pop fitnesses k_tour_default g of
        Inl e \<Rightarrow> Inl e
      | Inr (s1, g1) \<Rightarrow>
     (case tournament_selection_pp pop fitnesses k_tour_default g1 of
        Inl e \<Rightarrow> Inl e
      | Inr (s2, g2) \<Rightarrow>
     (let p1 = copy_of pop s1;
          p2 = copy_of pop s2;
          ((c1, c2), g3) = crossover p1 p2 pc g2
      in case mutate c1 pm sigma_t_default sigma_k_default g3 of
           Inl e \<Rightarrow> Inl e
         | Inr (c1', g4) \<Rightarrow>
        (case mutate c2 pm sigma_t_default sigma_k_default g4 of
           Inl e \<Rightarrow> Inl e
         | Inr (c2', g5) \<Rightarrow>
             if int (length (new_pop @ [c1'])) < pop_size
             then Inr (new_pop @ [c1', c2'], g5)
             else Inr (new_pop @ [c1'], g5)))))"

lemma breed_pp_longer:
  "breed_pp pop_size pc pm pop fitnesses new_pop g = Inr (np, g')
   \<Longrightarrow> length new_pop < length np"
  by (auto simp: breed_pp_def Let_def split: sum.splits prod.splits if_splits)

function breed_loop_pp ::
  "int \<Rightarrow> real \<Rightarrow> real \<Rightarrow> (real \<times> real) list \<Rightarrow> npfloat list \<Rightarrow> (real \<times> real) list \<Rightarrow> rng
     \<Rightarrow> error + ((real \<times> real) list \<times> rng)" where
  "breed_loop_pp pop_size pc pm pop fitnesses new_pop g =
     (if int (length new_pop) < pop_size then
        (case breed_pp pop_size pc pm pop fitnesses new_pop g of
           Inl e \<Rightarrow> Inl e
         | Inr (new_pop', g') \<Rightarrow> breed_loop_pp pop_size pc pm pop fitnesses new_pop' g')
      else Inr (new_pop, g))"
  by pat_completeness auto
termination
  by (relation "measure (\<lambda>(pop_size, pc, pm, pop, fitnesses, new_pop, g).
        nat (pop_size - int (length new_pop)))")
     (auto dest: breed_pp_longer)

text \<open>The six history lists of \<^verbatim>\<open>run_GA\<close>, returned as the dictionary \<open>history\<close>.\<close>

record history_pp =
  t_hist :: "real list"
  k_hist :: "real list"
  Q_hist :: "npfloat list"
  best_fit_hist :: "npfloat list"
  mean_fit_hist :: "npfloat list"
  worst_fit_hist :: "npfloat list"

text \<open>
  One pass of the body of \<^verbatim>\<open>for gen in range(generations)\<close>. The progress line
  printed when \<open>verbose\<close> is set changes no variable and is left out.
\<close>

fun generation_pp ::
  "int \<Rightarrow> real \<Rightarrow> real \<Rightarrow> real
     \<Rightarrow> (real \<times> real) list \<times> npfloat list \<times> history_pp \<times> rng
     \<Rightarrow> error + ((real \<times> real) list \<times> npfloat list \<times> history_pp \<times> rng)" where
  "generation_pp pop_size pc pm penalty_factor (pop, fitnesses, h, g) =
     (case np_argmin fitnesses of
        Inl e \<Rightarrow> Inl e
      | Inr best_idx \<Rightarrow>
     (case np_argmax fitnesses of
        Inl e \<Rightarrow> Inl e
      | Inr worst_idx \<Rightarrow>
     (case item fitnesses best_idx of
        Inl e \<Rightarrow> Inl e
      | Inr best_fit \<Rightarrow>
     (case item fitnesses worst_idx of
        Inl e \<Rightarrow> Inl e
      | Inr worst_fit \<Rightarrow>
     (case item pop best_idx of
        Inl e \<Rightarrow> Inl e
      | Inr best_ind \<Rightarrow>
          (let mean_fit = np_mean fitnesses;
               (t_best, k_best) = best_ind;
               Q_best = heat_flow_pp k_best t_best;
               h' = \<lparr>t_hist = t_hist h @ [t_best],
                     k_hist = k_hist h @ [k_best],
                     Q_hist = Q_hist h @ [Q_best],
                     best_fit_hist = best_fit_hist h @ [best_fit],
                     mean_fit_hist = mean_fit_hist h @ [mean_fit],
                     worst_fit_hist = worst_fit_hist h @ [worst_fit]\<rparr>
           in case breed_loop_pp pop_size pc pm pop fitnesses [best_ind] g of
                Inl e \<Rightarrow> Inl e
              | Inr (new_pop, g') \<Rightarrow>
                  Inr (new_pop, map (\<lambda>ind. fitness_pp ind penalty_factor) new_pop, h', g')))))))"

fun ga_loop_pp ::
  "int \<Rightarrow> real \<Rightarrow> real \<Rightarrow> real \<Rightarrow> nat
     \<Rightarrow> (real \<times> real) list \<times> npfloat list \<times> history_pp \<times> rng
     \<Rightarrow> error + ((real \<times> real) list \<times> npfloat list \<times> history_pp \<times> rng)" where
  "ga_loop_pp pop_size pc pm penalty_factor 0 s = Inr s"
| "ga_loop_pp pop_size pc pm penalty_factor (Suc n) s =
     (case generation_pp pop_size pc pm penalty_factor s of
        Inl e \<Rightarrow> Inl e
      | Inr s' \<Rightarrow> ga_loop_pp pop_size pc pm penalty_factor n s')"

text \<open>The state of \<^verbatim>\<open>run_GA\<close> when it enters the generation loop.\<close>

definition init_pp ::
  "rng \<Rightarrow> int \<Rightarrow> real
     \<Rightarrow> error + ((real \<times> real) list \<times> npfloat list \<times> history_pp \<times> rng)" where
  "init_pp g0 pop_size penalty_factor =
     (case init_population pop_size g0 of
        Inl e \<Rightarrow> Inl e
      | Inr (pop, g) \<Rightarrow>
          Inr (pop, map (\<lambda>ind. fitness_pp ind penalty_factor) pop,
               \<lparr>t_hist = [], k_hist = [], Q_hist = [], best_fit_hist = [],
                mean_fit_hist = [], worst_fit_hist = []\<rparr>, g))"

text \<open>
  \<^verbatim>\<open>run_GA(pop_size, generations, pc, pm, penalty_factor, verbose)\<close>. The function has
  no seed and never calls \<^verbatim>\<open>np.random.seed\<close>: it draws from the global generator in
  the state \<open>g0\<close> in which it finds it. It returns \<open>(t_best, k_best, Q_best, history)\<close>.
\<close>

definition run_GA_pp ::
  "rng \<Rightarrow> int \<Rightarrow> int \<Rightarrow> real \<Rightarrow> real \<Rightarrow> real
     \<Rightarrow> error + ((real \<times> real \<times> npfloat \<times> history_pp) \<times> rng)" where
  "run_GA_pp g0 pop_size generations pc pm penalty_factor =
     (case init_pp g0 pop_size penalty_factor of
        Inl e \<Rightarrow> Inl e
      | Inr s0 \<Rightarrow>
     (case ga_loop_pp pop_size pc pm penalty_factor (nat generations) s0 of
        Inl e \<Rightarrow> Inl e
      | Inr (pop, fitnesses, h, g) \<Rightarrow>
     (case np_argmin fitnesses of
        Inl e \<Rightarrow> Inl e
      | Inr best_idx \<Rightarrow>
     (case item pop best_idx of
        Inl e \<Rightarrow> Inl e
      | Inr (t_best, k_best) \<Rightarrow>
          Inr ((t_best, k_best, heat_flow_pp k_best t_best, h), g)))))"

section \<open>Verification\<close>

subsection \<open>The evaluators\<close>

lemma heat_flow_cil_regular:
  "- r1 < t \<Longrightarrow> t \<noteq> 0 \<Longrightarrow>
   heat_flow_cil k t = Fin (2 * pi * k * L_cil * dT_cil / ln ((r1 + t) / r1))"
  by (auto simp: heat_flow_cil_def np_log_def r1_def Let_def)

lemma heat_flow_cil_at_zero:
  "heat_flow_cil k 0 = (if 0 < k then PInf else if k < 0 then NInf else NaN)"
  by (auto simp: heat_flow_cil_def np_log_def r1_def L_cil_def dT_cil_def Let_def
      zero_less_mult_iff mult_less_0_iff)


lemma penalised_cil_Fin:
  "penalised_cil (Fin q) k t pf =
     Fin (t + (if Q_max < q then pf * (q - Q_max)\<^sup>2 else 0)
            + (if k_max < k then pf * (k - k_max)\<^sup>2 else 0))"
  by (simp add: penalised_cil_def np_sub_def power2_eq_square)


lemma penalised_cil_NInf:
  "penalised_cil NInf k t pf = Fin (t + (if k_max < k then pf * (k - k_max)\<^sup>2 else 0))"
  by (simp add: penalised_cil_def)

lemma penalised_cil_NaN:
  "penalised_cil NaN k t pf = Fin (t + (if k_max < k then pf * (k - k_max)\<^sup>2 else 0))"
  by (simp add: penalised_cil_def)





lemma heat_flow_pp_in_bounds:
  assumes "t_min \<le> t" "k_min \<le> k"
  shows "\<exists>q. 0 < q \<and> heat_flow_pp k t = Fin q"
proof -
  have t: "0 < t" and k: "0 < k"
    using assms by (simp_all add: t_min_def k_min_def)
  have ratio: "1 < (r_i + t) / r_i"
    using t by (simp add: r_i_def)
  have lnpos: "0 < ln ((r_i + t) / r_i)"
    using ratio by simp
  have d1: "0 < ln ((r_i + t) / r_i) / k"
    using lnpos k by simp
  have d2: "0 < 1 / (h_pp * (r_i + t))"
    using t by (simp add: h_pp_def r_i_def)
  have d: "0 < ln ((r_i + t) / r_i) / k + 1 / (h_pp * (r_i + t))"
    using d1 d2 by linarith
  have hr: "h_pp * (r_i + t) \<noteq> 0"
    using t by (simp add: h_pp_def r_i_def)
  have rpos: "0 < (r_i + t) / r_i"
    using ratio by linarith
  have "heat_flow_pp k t =
          Fin (2 * pi * L_pp * dT_pp / (ln ((r_i + t) / r_i) / k + 1 / (h_pp * (r_i + t))))"
    using d k hr rpos by (simp add: heat_flow_pp_def np_log_def Let_def)
  moreover have "0 < 2 * pi * L_pp * dT_pp / (ln ((r_i + t) / r_i) / k + 1 / (h_pp * (r_i + t)))"
    using d by (simp add: L_pp_def dT_pp_def T_i_def T_inf_def)
  ultimately show ?thesis by blast
qed

lemma fitness_pp_outside:
  "\<not> (t_min \<le> t \<and> t \<le> t_max \<and> k_min \<le> k \<and> k \<le> k_max_pp) \<Longrightarrow>
   fitness_pp (t, k) pf = Fin (10 ^ 9)"
  by (auto simp: fitness_pp_def)

lemma fitness_pp_inside:
  "t_min \<le> t \<Longrightarrow> t \<le> t_max \<Longrightarrow> k_min \<le> k \<Longrightarrow> k \<le> k_max_pp \<Longrightarrow>
   fitness_pp (t, k) pf = penalised_pp (heat_flow_pp k t) (t, k) pf"
  by (simp add: fitness_pp_def)


lemma penalised_pp_Fin:
  "penalised_pp (Fin q) ind pf =
     Fin (base_obj ind + (if Q_max_pp < q then pf * (q - Q_max_pp)\<^sup>2 else 0))"
  by (simp add: penalised_pp_def np_sub_def power2_eq_square mult.commute)




lemma fitness_pp_finite: "\<exists>x. fitness_pp ind pf = Fin x"
proof (cases ind)
  case (Pair t k)
  show ?thesis
  proof (cases "t_min \<le> t \<and> t \<le> t_max \<and> k_min \<le> k \<and> k \<le> k_max_pp")
    case True
    then obtain q where "heat_flow_pp k t = Fin q"
      using heat_flow_pp_in_bounds by blast
    with True Pair show ?thesis
      by (simp add: fitness_pp_inside penalised_pp_Fin)
  next
    case False
    with Pair show ?thesis
      using fitness_pp_outside by blast
  qed
qed

lemma objective_at_zero:
  assumes "0 < k"
  shows "objective [k, 0] pf =
           Inr (if 0 < pf then PInf else if pf < 0 then NInf else NaN)"
proof -
  have "heat_flow_cil k 0 = PInf"
    using assms by (simp add: heat_flow_cil_at_zero)
  then show ?thesis
    by (auto simp: penalised_cil_def np_sub_def inf_times_def Q_max_def)
qed

text \<open>
  Claim C3, as amended. \<^verbatim>\<open>fitness\<close> of \<^verbatim>\<open>placa_plana_ga.py\<close> returns the finite sentinel
  \<open>1e9\<close> for every individual with a gene outside its bounds, so that its heat-flow
  formula is evaluated only on genes within the bounds, where the heat flow is a
  finite positive number (the argument of the logarithm exceeds 1 and no divisor is 0).
  \<^verbatim>\<open>objective\<close> of \<^verbatim>\<open>cilindro_ga.py\<close> has no guard and no sentinel: at thickness \<open>t = 0\<close>
  and any \<open>k > 0\<close> the radius ratio is 1, the heat flow is \<open>+inf\<close> and the fitness
  returned is not finite; it is \<open>+inf\<close> for a positive penalty factor.
\<close>

theorem evaluator_guard:
  "(\<not> (t_min \<le> tp \<and> tp \<le> t_max \<and> k_min \<le> kp \<and> kp \<le> k_max_pp) \<longrightarrow>
      fitness_pp (tp, kp) penalty_factor = Fin (10 ^ 9)) \<and>
   (t_min \<le> tp \<and> tp \<le> t_max \<and> k_min \<le> kp \<and> kp \<le> k_max_pp \<longrightarrow>
      (\<exists>q. 0 < q \<and> heat_flow_pp kp tp = Fin q)) \<and>
   (0 < k \<longrightarrow>
      heat_flow_cil k 0 = PInf \<and>
      (\<exists>f. objective [k, 0] penalty_factor = Inr f \<and> \<not> isfinite f) \<and>
      (0 < penalty_factor \<longrightarrow> objective [k, 0] penalty_factor = Inr PInf))"
proof -
  have a: "fitness_pp (tp, kp) penalty_factor = Fin (10 ^ 9)"
    if "\<not> (t_min \<le> tp \<and> tp \<le> t_max \<and> k_min \<le> kp \<and> kp \<le> k_max_pp)"
    using fitness_pp_outside [OF that] .
  have b: "\<exists>q. 0 < q \<and> heat_flow_pp kp tp = Fin q"
    if "t_min \<le> tp \<and> tp \<le> t_max \<and> k_min \<le> kp \<and> kp \<le> k_max_pp"
    using heat_flow_pp_in_bounds that by blast
  have c: "heat_flow_cil k 0 = PInf \<and>
      (\<exists>f. objective [k, 0] penalty_factor = Inr f \<and> \<not> isfinite f) \<and>
      (0 < penalty_factor \<longrightarrow> objective [k, 0] penalty_factor = Inr PInf)"
    if "0 < k"
    using that objective_at_zero [OF that, of penalty_factor]
    by (simp add: heat_flow_cil_at_zero del: objective.simps)
  show ?thesis
    using a b c by blast
qed

theorem evaluator_guard_witness:
  "fitness_pp (1, 3 / 50) (10 ^ 4) = Fin (10 ^ 9) \<and>
   (\<exists>q. 0 < q \<and> heat_flow_pp (3 / 50) (1 / 10) = Fin q) \<and>
   heat_flow_cil (1 / 20) 0 = PInf \<and>
   (\<exists>f. objective [1 / 20, 0] (10 ^ 4) = Inr f \<and> \<not> isfinite f) \<and>
   objective [1 / 20, 0] (10 ^ 4) = Inr PInf"
proof -
  have b: "t_min \<le> 1 / 10 \<and> 1 / 10 \<le> t_max \<and> k_min \<le> 3 / 50 \<and> 3 / 50 \<le> k_max_pp"
    by (simp add: t_min_def t_max_def k_min_def k_max_pp_def)
  have o: "\<not> (t_min \<le> 1 \<and> 1 \<le> t_max \<and> k_min \<le> 3 / 50 \<and> 3 / 50 \<le> k_max_pp)"
    by (simp add: t_max_def)
  have k: "(0::real) < 1 / 20" and p: "(0::real) < 10 ^ 4"
    by simp_all
  show ?thesis
    using evaluator_guard [where tp = 1 and kp = "3 / 50" and penalty_factor = "10 ^ 4"
        and k = "1 / 20"]
      evaluator_guard [where tp = "1 / 10" and kp = "3 / 50" and penalty_factor = "10 ^ 4"
        and k = "1 / 20"]
      b o k p
    by blast
qed

text \<open>
  Claim C3 as stated fails for \<^verbatim>\<open>objective\<close> of \<^verbatim>\<open>cilindro_ga.py\<close>: at thickness
  \<open>t = 0\<close> the radius ratio is 1, the heat flow is \<open>36 \<pi> / log 1 = +inf\<close>, and with
  \<open>k = 0.05\<close> and the default penalty factor \<open>1e4\<close> the fitness returned is \<open>+inf\<close>.
\<close>

theorem evaluator_guard_counterexample:
  "objective [1 / 20, 0] (10 ^ 4) = Inr PInf \<and> \<not> isfinite PInf"
  by (simp add: heat_flow_cil_at_zero penalised_cil_def np_sub_def inf_times_def Q_max_def
      k_max_def)




subsection \<open>Mutation with rate 0\<close>

lemma frac_less_zero: "(frac (x::real) < 0) = False"
  by (simp add: not_less)

lemma mutate_genes_rate_zero:
  "mutate_genes bounds 0 ms is child g = Inr (child, sdrop (length is) g)"
  by (induction "is" arbitrary: g) (simp_all add: rand_def frac_less_zero)

lemma clip_id: "low \<le> x \<Longrightarrow> x \<le> high \<Longrightarrow> clip x low high = x"
  by (simp add: clip_def)

lemma clip_eq_iff: "low \<le> high \<Longrightarrow> clip x low high = x \<longleftrightarrow> low \<le> x \<and> x \<le> high"
  by (auto simp: clip_def min_def max_def)

lemma mutate_rate_zero_pp:
  "mutate (t, k) 0 st sk g = Inr ((clip t t_min t_max, clip k k_min k_max_pp), stl (stl g))"
  by (simp add: mutate_def rand_def frac_less_zero)

text \<open>
  Claim C7, as amended. With a mutation rate of 0 no gene is perturbed, since a draw of
  \<^verbatim>\<open>rand()\<close> is never below 0. The mutation loop of \<^verbatim>\<open>cilindro_ga.py\<close> then returns
  every individual as it was, having consumed one draw for each gene. \<^verbatim>\<open>mutate\<close> of
  \<^verbatim>\<open>placa_plana_ga.py\<close> still clips both genes: having consumed two draws it returns
  \<open>(clip(t, t_min, t_max), clip(k, k_min, k_max))\<close>, which is the individual it was given
  if and only if both genes lie within their bounds.
\<close>

theorem mutate_rate_zero:
  "mutate_genes bounds 0 mutation_scale is child g = Inr (child, sdrop (length is) g) \<and>
   mutate (t, k) 0 sigma_t sigma_k g
     = Inr ((clip t t_min t_max, clip k k_min k_max_pp), stl (stl g)) \<and>
   ((clip t t_min t_max, clip k k_min k_max_pp) = (t, k)
      \<longleftrightarrow> t_min \<le> t \<and> t \<le> t_max \<and> k_min \<le> k \<and> k \<le> k_max_pp)"
proof -
  have "t_min \<le> t_max" "k_min \<le> k_max_pp"
    by (simp_all add: t_min_def t_max_def k_min_def k_max_pp_def)
  then show ?thesis
    by (simp add: mutate_genes_rate_zero mutate_rate_zero_pp clip_eq_iff)
qed

theorem mutate_rate_zero_witness:
  "mutate_genes [(0, 1), (1, 2)] 0 1 [0, 1] [1 / 2, 3 / 2] (sconst 5)
     = Inr ([1 / 2, 3 / 2], sconst 5) \<and>
   mutate (1 / 10, 3 / 50) 0 1 1 (sconst 5) = Inr ((1 / 10, 3 / 50), sconst 5)"
  using mutate_rate_zero [of "[(0, 1), (1, 2)]" 1 "[0, 1]" "[1 / 2, 3 / 2]" "sconst 5"
      "1 / 10" "3 / 50" 1 1]
  by (simp add: t_min_def t_max_def k_min_def k_max_pp_def)

text \<open>
  Claim C7 as stated fails for \<^verbatim>\<open>mutate\<close> of \<^verbatim>\<open>placa_plana_ga.py\<close>. The thickness
  \<open>7205759403792795 / 2^55\<close> is the double next above \<open>t_max = 0.2\<close>, printed
  \<open>0.20000000000000004\<close>: it is what \<^verbatim>\<open>crossover\<close> computes in double precision as
  \<open>0.2 * 0.2 + (1 - 0.2) * 0.2\<close> from two parents of thickness \<open>t_max\<close>. With \<open>pm = 0\<close>
  the individual of that thickness comes back with its thickness clipped to \<open>t_max\<close>.
\<close>

theorem mutate_rate_zero_counterexample:
  "mutate (7205759403792795 / 36028797018963968, k_min) 0 sigma_t_default sigma_k_default
       (sconst 0)
     = Inr ((t_max, k_min), sconst 0) \<and>
   (t_max, k_min) \<noteq> (7205759403792795 / 36028797018963968, k_min)"
  by (simp add: mutate_def rand_def clip_def t_min_def t_max_def k_min_def k_max_pp_def)

subsection \<open>The size of the population\<close>

declare breed_loop_cil.simps [simp del] breed_loop_pp.simps [simp del]


lemma init_columns_length:
  "length (fst (init_columns bounds n g)) = length bounds"
  by (induction bounds arbitrary: g) (auto simp: split_beta Let_def)


lemma evaluate_length: "evaluate pop pf = Inr fs \<Longrightarrow> length fs = length pop"
  by (induction pop arbitrary: fs) (auto split: sum.splits)












text \<open>What a successful call of each function of the generation loop has computed.\<close>

lemma rand_range: "rand g = (u, g') \<Longrightarrow> 0 \<le> u \<and> u < 1"
  by (auto simp: rand_def frac_lt_1)

lemma selection_cil_row:
  "tournament_selection_cil population fitness pop_size g = Inr (s, g') \<Longrightarrow>
   \<exists>i. s = RowView i \<and> i < length population"
  by (auto simp: tournament_selection_cil_def item_def Let_def
      split: sum.splits list.splits if_splits)

lemma breed_cil_elim:
  assumes "breed_cil bounds pop_size cr mr ms population fitness new_population g = Inr (np, g')"
  obtains s1 g1 s2 g2 child1 child2 g4 c1 g5 where
    "tournament_selection_cil population fitness pop_size g = Inr (s1, g1)"
    "tournament_selection_cil population fitness pop_size g1 = Inr (s2, g2)"
    "crossover_cil (copy_of population s1) (copy_of population s2) cr g2 = (child1, child2, g4)"
    "mutate_genes bounds mr ms [0..<length bounds] child1 g4 = Inr (c1, g5)"
    "(pop_size \<le> int (length new_population) + 1 \<and> np = new_population @ [c1] \<and> g' = g5) \<or>
     (\<exists>c2. \<not> pop_size \<le> int (length new_population) + 1 \<and>
        mutate_genes bounds mr ms [0..<length bounds] child2 g5 = Inr (c2, g') \<and>
        np = new_population @ [c1, c2])"
proof -
  from assms obtain s1 g1 where
    a: "tournament_selection_cil population fitness pop_size g = Inr (s1, g1)"
    by (auto simp: breed_cil_def split: sum.splits)
  from assms a obtain s2 g2 where
    b: "tournament_selection_cil population fitness pop_size g1 = Inr (s2, g2)"
    by (auto simp: breed_cil_def split: sum.splits)
  obtain child1 child2 g4 where
    c: "crossover_cil (copy_of population s1) (copy_of population s2) cr g2
          = (child1, child2, g4)"
    by (cases "crossover_cil (copy_of population s1) (copy_of population s2) cr g2") auto
  from assms a b c obtain c1 g5 where
    d: "mutate_genes bounds mr ms [0..<length bounds] child1 g4 = Inr (c1, g5)"
    by (auto simp: breed_cil_def Let_def split: sum.splits)
  from assms a b c d have
    "(pop_size \<le> int (length new_population) + 1 \<and> np = new_population @ [c1] \<and> g' = g5) \<or>
     (\<exists>c2. \<not> pop_size \<le> int (length new_population) + 1 \<and>
        mutate_genes bounds mr ms [0..<length bounds] child2 g5 = Inr (c2, g') \<and>
        np = new_population @ [c1, c2])"
    by (auto simp: breed_cil_def Let_def split: sum.splits if_splits)
  with a b c d show ?thesis
    using that by blast
qed

lemma generation_cil_elim:
  assumes "generation_cil bounds pop_size cr mr ms pf (population, fitness, h, g)
             = Inr (population', fitness', h', g')"
  obtains best_idx worst where
    "np_argmin fitness = Inr best_idx" "best_idx < length population"
    "best_idx < length fitness" "np_max fitness = Inr worst"
    "length (population ! best_idx) = 2"
    "h' = \<lparr>best_hist = best_hist h @ [fitness ! best_idx],
           worst_hist = worst_hist h @ [worst],
           avg_hist = avg_hist h @ [np_mean fitness],
           best_t_hist = best_t_hist h @ [population ! best_idx ! 1],
           best_Q_hist = best_Q_hist h
             @ [heat_flow_cil (population ! best_idx ! 0) (population ! best_idx ! 1)]\<rparr>"
    "breed_loop_cil bounds pop_size cr mr ms population fitness [population ! best_idx] g
       = Inr (population', g')"
    "evaluate population' pf = Inr fitness'"
  using assms
  by (auto simp: Let_def item_def split: sum.splits list.splits if_splits)

lemma selection_pp_row:
  "tournament_selection_pp pop fitnesses k_tour g = Inr (s, g') \<Longrightarrow>
   \<exists>i. s = OwnData (pop ! i) \<and> i < length pop"
  by (auto simp: tournament_selection_pp_def item_def split: sum.splits if_splits)
     (metis)

lemma breed_pp_elim:
  assumes "breed_pp pop_size pc pm pop fitnesses new_pop g = Inr (np, g')"
  obtains s1 g1 s2 g2 c1 c2 g3 c1' g4 c2' where
    "tournament_selection_pp pop fitnesses k_tour_default g = Inr (s1, g1)"
    "tournament_selection_pp pop fitnesses k_tour_default g1 = Inr (s2, g2)"
    "crossover (copy_of pop s1) (copy_of pop s2) pc g2 = ((c1, c2), g3)"
    "mutate c1 pm sigma_t_default sigma_k_default g3 = Inr (c1', g4)"
    "mutate c2 pm sigma_t_default sigma_k_default g4 = Inr (c2', g')"
    "np = (if int (length new_pop) + 1 < pop_size then new_pop @ [c1', c2'] else new_pop @ [c1'])"
proof -
  from assms obtain s1 g1 where
    a: "tournament_selection_pp pop fitnesses k_tour_default g = Inr (s1, g1)"
    by (auto simp: breed_pp_def split: sum.splits)
  from assms a obtain s2 g2 where
    b: "tournament_selection_pp pop fitnesses k_tour_default g1 = Inr (s2, g2)"
    by (auto simp: breed_pp_def split: sum.splits)
  obtain c1 c2 g3 where
    c: "crossover (copy_of pop s1) (copy_of pop s2) pc g2 = ((c1, c2), g3)"
    by (cases "crossover (copy_of pop s1) (copy_of pop s2) pc g2") auto
  from assms a b c obtain c1' g4 where
    d: "mutate c1 pm sigma_t_default sigma_k_default g3 = Inr (c1', g4)"
    by (auto simp: breed_pp_def Let_def split: sum.splits)
  from assms a b c d obtain c2' where
    e: "mutate c2 pm sigma_t_default sigma_k_default g4 = Inr (c2', g')"
    and f: "np = (if int (length new_pop) + 1 < pop_size
                  then new_pop @ [c1', c2'] else new_pop @ [c1'])"
    by (auto simp: breed_pp_def Let_def split: sum.splits if_splits)
  with a b c d show ?thesis
    using that by blast
qed

lemma generation_pp_elim:
  assumes "generation_pp pop_size pc pm pf (pop, fitnesses, h, g) = Inr (pop', fitnesses', h', g')"
  obtains best_idx worst_idx where
    "np_argmin fitnesses = Inr best_idx" "np_argmax fitnesses = Inr worst_idx"
    "best_idx < length pop" "best_idx < length fitnesses" "worst_idx < length fitnesses"
    "h' = \<lparr>t_hist = t_hist h @ [fst (pop ! best_idx)],
           k_hist = k_hist h @ [snd (pop ! best_idx)],
           Q_hist = Q_hist h @ [heat_flow_pp (snd (pop ! best_idx)) (fst (pop ! best_idx))],
           best_fit_hist = best_fit_hist h @ [fitnesses ! best_idx],
           mean_fit_hist = mean_fit_hist h @ [np_mean fitnesses],
           worst_fit_hist = worst_fit_hist h @ [fitnesses ! worst_idx]\<rparr>"
    "breed_loop_pp pop_size pc pm pop fitnesses [pop ! best_idx] g = Inr (pop', g')"
    "fitnesses' = map (\<lambda>ind. fitness_pp ind pf) pop'"
  using assms
  by (auto simp: Let_def item_def split_beta split: sum.splits if_splits)

text \<open>The breeding loop only appends to the new population.\<close>

lemma breed_cil_prefix:
  "breed_cil bounds pop_size cr mr ms population fitness new_population g = Inr (np, g') \<Longrightarrow>
   \<exists>more. np = new_population @ more"
  by (erule breed_cil_elim) auto

lemma breed_loop_cil_prefix:
  "breed_loop_cil bounds pop_size cr mr ms population fitness new_population g = Inr (np, g') \<Longrightarrow>
   \<exists>more. np = new_population @ more"
proof (induction bounds pop_size cr mr ms population fitness new_population g
    rule: breed_loop_cil.induct)
  case (1 bounds pop_size cr mr ms population fitness new_population g)
  show ?case
  proof (cases "int (length new_population) < pop_size")
    case True
    then obtain np1 g1 where
      b: "breed_cil bounds pop_size cr mr ms population fitness new_population g = Inr (np1, g1)"
      and l: "breed_loop_cil bounds pop_size cr mr ms population fitness np1 g1 = Inr (np, g')"
      using "1.prems"(1) by (subst (asm) breed_loop_cil.simps) (auto split: sum.splits)
    show ?thesis
      using "1.IH" [OF True b refl l] breed_cil_prefix [OF b] by auto
  next
    case False
    then show ?thesis
      using "1.prems" by (subst (asm) breed_loop_cil.simps) simp
  qed
qed

lemma breed_pp_prefix:
  "breed_pp pop_size pc pm pop fitnesses new_pop g = Inr (np, g') \<Longrightarrow>
   \<exists>more. np = new_pop @ more"
  by (erule breed_pp_elim) auto

lemma breed_loop_pp_prefix:
  "breed_loop_pp pop_size pc pm pop fitnesses new_pop g = Inr (np, g') \<Longrightarrow>
   \<exists>more. np = new_pop @ more"
proof (induction pop_size pc pm pop fitnesses new_pop g rule: breed_loop_pp.induct)
  case (1 pop_size pc pm pop fitnesses new_pop g)
  show ?case
  proof (cases "int (length new_pop) < pop_size")
    case True
    then obtain np1 g1 where
      b: "breed_pp pop_size pc pm pop fitnesses new_pop g = Inr (np1, g1)"
      and l: "breed_loop_pp pop_size pc pm pop fitnesses np1 g1 = Inr (np, g')"
      using "1.prems"(1) by (subst (asm) breed_loop_pp.simps) (auto split: sum.splits)
    show ?thesis
      using "1.IH" [OF True b refl l] breed_pp_prefix [OF b] by auto
  next
    case False
    then show ?thesis
      using "1.prems" by (subst (asm) breed_loop_pp.simps) simp
  qed
qed


subsection \<open>Concrete runs\<close>

text \<open>
  A run of \<^verbatim>\<open>cilindro_ga.py\<close> with two individuals and the bounds \<open>k \<in> [0, 0]\<close>,
  \<open>t \<in> [1, 2]\<close>, without crossover and with every gene mutated, on the generator whose
  outcomes are all \<open>-1/2\<close>: a uniform draw is \<open>1/2\<close>, an index drawn below 2 is 1, a
  normal draw of scale \<open>s\<close> is \<open>-s/2\<close>. With \<open>k = 0\<close> the heat flow is 0 and the fitness
  is \<open>t\<close>.
\<close>

lemma rand_sconst: "rand (sconst c) = (frac c, sconst c)"
  by (simp add: rand_def)

lemma frac_minus_half: "frac (- (1 / 2) :: real) = 1 / 2"
  by (simp add: frac_def)

lemma heat_flow_cil_k_zero: "0 < t \<Longrightarrow> heat_flow_cil 0 t = Fin 0"
  by (simp add: heat_flow_cil_regular r1_def)

lemma objective_k_zero: "0 < t \<Longrightarrow> objective [0, t] pf = Inr (Fin t)"
  by (simp add: heat_flow_cil_k_zero penalised_cil_Fin Q_max_def k_max_def)

definition ex_rng :: rng where "ex_rng = sconst (- (1 / 2))"

lemma rand_ex: "rand ex_rng = (1 / 2, ex_rng)"
  by (simp add: ex_rng_def rand_sconst frac_minus_half)

lemma ex_init:
  "init_cil (\<lambda>seed. ex_rng) [(0, 0), (1, 2)] 2 1 0
     = Inr ([[0, 3 / 2], [0, 3 / 2]], [Fin (3 / 2), Fin (3 / 2)],
            \<lparr>best_hist = [], worst_hist = [], avg_hist = [], best_t_hist = [],
             best_Q_hist = []\<rparr>, ex_rng)"
  by (simp add: init_cil_def seed_rng_def rand_ex rows_of_def objective_k_zero
      numeral_2_eq_2 Let_def del: objective.simps)

lemma ex_rng_simps: "shd ex_rng = - (1 / 2)" "stl ex_rng = ex_rng"
  by (simp_all add: ex_rng_def)

lemma ex_randint: "randint 2 2 ex_rng = Inr ([1, 1], ex_rng)"
  by (simp add: randint_def rand_ex numeral_2_eq_2)

lemma ex_selection:
  "tournament_selection_cil [[0, 3 / 2], [0, 3 / 2]] [Fin (3 / 2), Fin (3 / 2)] 2 ex_rng
     = Inr (RowView 1, ex_rng)"
  by (simp add: tournament_selection_cil_def ex_randint item_def)

lemma ex_mutate:
  "mutate_genes [(0, 0), (1, 2)] 1 1 [0, Suc 0] [0, 3 / 2] ex_rng = Inr ([0, 1], ex_rng)"
  by (simp add: rand_ex normal_def item_def clip_def ex_rng_simps)

lemma ex_breed:
  "breed_cil [(0, 0), (1, 2)] 2 0 1 1 [[0, 3 / 2], [0, 3 / 2]] [Fin (3 / 2), Fin (3 / 2)]
     [[0, 3 / 2]] ex_rng
   = Inr ([[0, 3 / 2], [0, 1]], ex_rng)"
  by (simp add: breed_cil_def crossover_cil_def ex_selection rand_ex ex_mutate
      upt_rec [of 0] upt_rec [of 1] numeral_2_eq_2 Let_def del: mutate_genes.simps)

lemma ex_breed_loop:
  "breed_loop_cil [(0, 0), (1, 2)] 2 0 1 1 [[0, 3 / 2], [0, 3 / 2]] [Fin (3 / 2), Fin (3 / 2)]
     [[0, 3 / 2]] ex_rng
   = Inr ([[0, 3 / 2], [0, 1]], ex_rng)"
  by (subst breed_loop_cil.simps, simp add: ex_breed, subst breed_loop_cil.simps, simp)

lemma ex_generation:
  "generation_cil [(0, 0), (1, 2)] 2 0 1 1 1
     ([[0, 3 / 2], [0, 3 / 2]], [Fin (3 / 2), Fin (3 / 2)],
      \<lparr>best_hist = [], worst_hist = [], avg_hist = [], best_t_hist = [],
       best_Q_hist = []\<rparr>, ex_rng)
   = Inr ([[0, 3 / 2], [0, 1]], [Fin (3 / 2), Fin 1],
          \<lparr>best_hist = [Fin (3 / 2)], worst_hist = [Fin (3 / 2)], avg_hist = [Fin (3 / 2)],
           best_t_hist = [3 / 2], best_Q_hist = [Fin 0]\<rparr>, ex_rng)"
  by (simp add: item_def np_mean_def heat_flow_cil_k_zero ex_breed_loop objective_k_zero
      del: objective.simps)

lemma ex_run:
  "run_GA_cil (\<lambda>seed. ex_rng) g0 [(0, 0), (1, 2)] 2 1 0 1 1 1 0
   = Inr (\<lparr>best_hist = [Fin (3 / 2)], worst_hist = [Fin (3 / 2)], avg_hist = [Fin (3 / 2)],
           best_t_hist = [3 / 2], best_Q_hist = [Fin 0],
           best_individual = [0, 1], best_fitness = Fin 1\<rparr>, ex_rng)"
  by (simp add: run_GA_cil_def ex_init ex_generation item_def del: generation_cil.simps)

lemma ex_loop:
  "ga_loop_cil [(0, 0), (1, 2)] 2 0 1 1 1 (Suc 0)
     ([[0, 3 / 2], [0, 3 / 2]], [Fin (3 / 2), Fin (3 / 2)],
      \<lparr>best_hist = [], worst_hist = [], avg_hist = [], best_t_hist = [],
       best_Q_hist = []\<rparr>, ex_rng)
   = Inr ([[0, 3 / 2], [0, 1]], [Fin (3 / 2), Fin 1],
          \<lparr>best_hist = [Fin (3 / 2)], worst_hist = [Fin (3 / 2)], avg_hist = [Fin (3 / 2)],
           best_t_hist = [3 / 2], best_Q_hist = [Fin 0]\<rparr>, ex_rng)"
  by (simp add: ex_generation del: generation_cil.simps)

text \<open>
  A run of \<^verbatim>\<open>placa_plana_ga.py\<close> with two individuals, no crossover and no mutation,
  on the generator whose outcomes are all 0: every individual is \<open>(t_min, k_min)\<close>.
\<close>

definition ex_ind :: "real \<times> real" where "ex_ind = (t_min, k_min)"

lemma ex_ind_case: "(case ex_ind of (t, k) \<Rightarrow> f t k) = f t_min k_min"
  by (simp add: ex_ind_def)

lemma rand_zero: "rand (sconst 0) = (0, sconst 0)"
  by (simp add: rand_def)

lemma ex_pp_init_population:
  "init_population 2 (sconst 0) = Inr ([ex_ind, ex_ind], sconst 0)"
  by (simp add: init_population_def rand_zero numeral_2_eq_2 ex_ind_def)

lemma argmin_equal3: "np_argmin [Fin y, Fin y, Fin y] = Inr 0"
  by simp

lemma ex_pp_selection:
  "tournament_selection_pp [ex_ind, ex_ind] [Fin y, Fin y] k_tour_default (sconst 0)
     = Inr (OwnData ex_ind, sconst 0)"
  by (simp add: tournament_selection_pp_def randint_def rand_zero item_def k_tour_default_def
      numeral_3_eq_3)

lemma ex_pp_mutate:
  "mutate ex_ind 0 sigma_t_default sigma_k_default (sconst 0) = Inr (ex_ind, sconst 0)"
  by (simp add: ex_ind_def mutate_rate_zero_pp clip_def t_min_def t_max_def k_min_def
      k_max_pp_def)

lemma ex_pp_crossover:
  "crossover ex_ind ex_ind 0 (sconst 0) = ((ex_ind, ex_ind), sconst 0)"
  by (simp add: crossover_def rand_zero)

lemma ex_pp_breed:
  "breed_pp 2 0 0 [ex_ind, ex_ind] [Fin y, Fin y] [ex_ind] (sconst 0)
     = Inr ([ex_ind, ex_ind], sconst 0)"
  by (simp add: breed_pp_def ex_pp_selection ex_pp_crossover ex_pp_mutate)

lemma ex_pp_breed_loop:
  "breed_loop_pp 2 0 0 [ex_ind, ex_ind] [Fin y, Fin y] [ex_ind] (sconst 0)
     = Inr ([ex_ind, ex_ind], sconst 0)"
  by (subst breed_loop_pp.simps, simp add: ex_pp_breed, subst breed_loop_pp.simps, simp)

definition ex_hist :: "real \<Rightarrow> history_pp" where
  "ex_hist pf =
     \<lparr>t_hist = [t_min], k_hist = [k_min], Q_hist = [heat_flow_pp k_min t_min],
      best_fit_hist = [fitness_pp ex_ind pf],
      mean_fit_hist = [np_mean [fitness_pp ex_ind pf, fitness_pp ex_ind pf]],
      worst_fit_hist = [fitness_pp ex_ind pf]\<rparr>"

lemma ex_pp_init:
  "init_pp (sconst 0) 2 pf
     = Inr ([ex_ind, ex_ind], [fitness_pp ex_ind pf, fitness_pp ex_ind pf],
            \<lparr>t_hist = [], k_hist = [], Q_hist = [], best_fit_hist = [],
             mean_fit_hist = [], worst_fit_hist = []\<rparr>, sconst 0)"
  by (simp add: init_pp_def ex_pp_init_population)

lemma ex_pp_generation:
  "generation_pp 2 0 0 pf
     ([ex_ind, ex_ind], [fitness_pp ex_ind pf, fitness_pp ex_ind pf],
      \<lparr>t_hist = [], k_hist = [], Q_hist = [], best_fit_hist = [],
       mean_fit_hist = [], worst_fit_hist = []\<rparr>, sconst 0)
   = Inr ([ex_ind, ex_ind], [fitness_pp ex_ind pf, fitness_pp ex_ind pf], ex_hist pf,
          sconst 0)"
proof -
  obtain y where y: "fitness_pp ex_ind pf = Fin y"
    using fitness_pp_finite by blast
  show ?thesis
    by (simp add: y item_def ex_pp_breed_loop ex_hist_def) (simp add: ex_ind_def)
qed

lemma ex_pp_loop:
  "ga_loop_pp 2 0 0 pf (Suc 0)
     ([ex_ind, ex_ind], [fitness_pp ex_ind pf, fitness_pp ex_ind pf],
      \<lparr>t_hist = [], k_hist = [], Q_hist = [], best_fit_hist = [],
       mean_fit_hist = [], worst_fit_hist = []\<rparr>, sconst 0)
   = Inr ([ex_ind, ex_ind], [fitness_pp ex_ind pf, fitness_pp ex_ind pf], ex_hist pf,
          sconst 0)"
  by (simp add: ex_pp_generation del: generation_pp.simps)

lemma ex_pp_run:
  "run_GA_pp (sconst 0) 2 1 0 0 pf
     = Inr ((t_min, k_min, heat_flow_pp k_min t_min, ex_hist pf), sconst 0)"
proof -
  obtain y where y: "fitness_pp ex_ind pf = Fin y"
    using fitness_pp_finite by blast
  have a: "np_argmin [fitness_pp ex_ind pf, fitness_pp ex_ind pf] = Inr 0"
    by (simp add: y)
  show ?thesis
    by (simp add: run_GA_pp_def ex_pp_init ex_pp_loop a item_def ex_ind_case
        del: generation_pp.simps ga_loop_pp.simps np_argmin.simps)
qed































subsection \<open>The replacement of the population\<close>







subsection \<open>Elitism\<close>

lemma np_le_refl: "x \<noteq> NaN \<Longrightarrow> np_le x x"
  by (cases x) simp_all

lemma np_le_trans: "np_le a b \<Longrightarrow> np_le b c \<Longrightarrow> np_le a c"
  by (cases a; cases b; cases c) simp_all

lemma np_le_total: "x \<noteq> NaN \<Longrightarrow> y \<noteq> NaN \<Longrightarrow> \<not> np_less x y \<Longrightarrow> np_le y x"
  by (cases x; cases y) simp_all

lemma np_less_le: "np_less x y \<Longrightarrow> np_le x y"
  by (cases x; cases y) simp_all

lemma argmin_scan_min:
  "ys = pre @ xs \<Longrightarrow> length pre = i \<Longrightarrow> bi < i \<Longrightarrow> ys ! bi = bv \<Longrightarrow> NaN \<notin> set ys \<Longrightarrow>
   \<forall>y\<in>set pre. np_le bv y \<Longrightarrow>
   argmin_scan bi bv i xs < length ys \<and> (\<forall>y\<in>set ys. np_le (ys ! argmin_scan bi bv i xs) y)"
proof (induction xs arbitrary: pre i bi bv)
  case Nil
  then show ?case by simp
next
  case (Cons x xs)
  have x: "x \<noteq> NaN"
    using Cons.prems(1,5) by auto
  have "bi < length ys"
    using Cons.prems(1,2,3) by simp
  then have bvn: "bv \<noteq> NaN"
    using Cons.prems(4,5) nth_mem [of bi ys] by metis
  have ys: "ys = (pre @ [x]) @ xs" and len: "length (pre @ [x]) = Suc i"
    using Cons.prems(1,2) by simp_all
  have xi: "ys ! i = x"
    using Cons.prems(1,2) by (simp add: nth_append)
  show ?case
  proof (cases "np_less x bv")
    case True
    have "\<forall>y\<in>set (pre @ [x]). np_le x y"
      using Cons.prems(6) np_less_le [OF True] np_le_trans [of x bv] np_le_refl [OF x]
      by auto
    then show ?thesis
      using Cons.IH [OF ys len _ xi Cons.prems(5)] True x bvn by simp
  next
    case False
    have "\<forall>y\<in>set (pre @ [x]). np_le bv y"
      using Cons.prems(6) np_le_total [OF x bvn False] by auto
    then show ?thesis
      using Cons.IH [OF ys len _ Cons.prems(4,5)] Cons.prems(3) False x by simp
  qed
qed

lemma np_argmin_min:
  assumes "np_argmin fs = Inr i" "NaN \<notin> set fs"
  shows "i < length fs \<and> (\<forall>f\<in>set fs. np_le (fs ! i) f)"
proof (cases fs)
  case Nil
  then show ?thesis using assms by simp
next
  case (Cons x xs)
  have "x \<noteq> NaN"
    using assms(2) Cons by auto
  then have "\<forall>y\<in>set [x]. np_le x y"
    by (simp add: np_le_refl)
  then show ?thesis
    using argmin_scan_min [of fs "[x]" xs 1 0 x] assms Cons by simp
qed

lemma penalised_cil_not_nan:
  assumes "pf \<noteq> 0"
  shows "penalised_cil Q k t pf \<noteq> NaN"
proof (cases Q)
  case (Fin q)
  then show ?thesis by (simp add: penalised_cil_Fin)
next
  case PInf
  have "inf_times True pf = PInf \<or> inf_times True pf = NInf"
    using assms by (simp add: inf_times_def)
  then show ?thesis
    unfolding PInf by (auto simp: penalised_cil_def np_sub_def split: if_splits)
next
  case NInf
  then show ?thesis by (simp add: penalised_cil_NInf)
next
  case NaN
  then show ?thesis by (simp add: penalised_cil_NaN)
qed

lemma objective_not_nan:
  assumes "objective ind pf = Inr f" "pf \<noteq> 0"
  shows "f \<noteq> NaN"
proof -
  obtain k t where ind: "ind = [k, t]"
    using assms(1) by (cases "(ind, pf)" rule: objective.cases) auto
  show ?thesis
    using assms(1) penalised_cil_not_nan [OF assms(2)] unfolding ind by auto
qed

lemma evaluate_nth:
  "evaluate pop pf = Inr fs \<Longrightarrow> i < length pop \<Longrightarrow> objective (pop ! i) pf = Inr (fs ! i)"
proof (induction pop arbitrary: fs i)
  case Nil
  then show ?case by simp
next
  case (Cons ind pop)
  then show ?case
    by (cases i) (auto split: sum.splits)
qed

lemma evaluate_not_nan:
  assumes "evaluate pop pf = Inr fs" "pf \<noteq> 0"
  shows "NaN \<notin> set fs"
proof
  assume "NaN \<in> set fs"
  then obtain i where i: "i < length fs" "fs ! i = NaN"
    by (auto simp: in_set_conv_nth)
  have "i < length pop"
    using i(1) evaluate_length [OF assms(1)] by simp
  then show False
    using evaluate_nth [OF assms(1)] objective_not_nan [OF _ assms(2)] i(2) by metis
qed



text \<open>
  One generation of \<^verbatim>\<open>cilindro_ga.py\<close>: the history gets the least fitness of the
  current population, and the elite keeps that fitness in the next population.
\<close>

lemma generation_cil_elite:
  assumes "generation_cil bounds pop_size cr mr ms pf (population, fitness, h, g)
             = Inr (population', fitness', h', g')"
    and "evaluate population pf = Inr fitness" "pf \<noteq> 0"
  obtains b where
    "np_argmin fitness = Inr b" "b < length fitness"
    "best_hist h' = best_hist h @ [fitness ! b]"
    "\<forall>f\<in>set fitness. np_le (fitness ! b) f"
    "evaluate population' pf = Inr fitness'"
    "fitness ! b \<in> set fitness'"
proof -
  from assms(1) obtain b worst where
    a: "np_argmin fitness = Inr b" and bp: "b < length population"
    and bf: "b < length fitness"
    and h': "h' = \<lparr>best_hist = best_hist h @ [fitness ! b],
           worst_hist = worst_hist h @ [worst],
           avg_hist = avg_hist h @ [np_mean fitness],
           best_t_hist = best_t_hist h @ [population ! b ! 1],
           best_Q_hist = best_Q_hist h
             @ [heat_flow_cil (population ! b ! 0) (population ! b ! 1)]\<rparr>"
    and l: "breed_loop_cil bounds pop_size cr mr ms population fitness [population ! b] g
       = Inr (population', g')"
    and e: "evaluate population' pf = Inr fitness'"
    by (rule generation_cil_elim)
  have nn: "NaN \<notin> set fitness"
    using evaluate_not_nan [OF assms(2,3)] .
  have m: "\<forall>f\<in>set fitness. np_le (fitness ! b) f"
    using np_argmin_min [OF a nn] by simp
  obtain more where p': "population' = population ! b # more"
    using breed_loop_cil_prefix [OF l] by auto
  have "objective (population' ! 0) pf = Inr (fitness' ! 0)"
    using evaluate_nth [OF e, of 0] p' by simp
  moreover have "objective (population ! b) pf = Inr (fitness ! b)"
    using evaluate_nth [OF assms(2) bp] .
  ultimately have "fitness' ! 0 = fitness ! b"
    using p' by simp
  moreover have "0 < length fitness'"
    using evaluate_length [OF e] p' by simp
  ultimately have "fitness ! b \<in> set fitness'"
    using nth_mem [of 0 fitness'] by simp
  then show ?thesis
    using that a bf h' m e by simp
qed

text \<open>
  A history of best fitness values is non-increasing: each entry is \<^verbatim>\<open><=\<close> the one
  before it.
\<close>

definition nonincreasing :: "npfloat list \<Rightarrow> bool" where
  "nonincreasing hs = (\<forall>i. Suc i < length hs \<longrightarrow> np_le (hs ! Suc i) (hs ! i))"

lemma nonincreasing_snoc:
  assumes "nonincreasing hs" "hs \<noteq> [] \<Longrightarrow> np_le x (last hs)"
  shows "nonincreasing (hs @ [x])"
  unfolding nonincreasing_def
proof (intro allI impI)
  fix i
  assume i: "Suc i < length (hs @ [x])"
  show "np_le ((hs @ [x]) ! Suc i) ((hs @ [x]) ! i)"
  proof (cases "Suc i < length hs")
    case True
    then show ?thesis
      using assms(1) by (simp add: nonincreasing_def nth_append)
  next
    case False
    then have e: "Suc i = length hs"
      using i by simp
    have ne: "hs \<noteq> []"
      using e by auto
    have "length hs - 1 = i"
      using e by arith
    then have "last hs = hs ! i"
      using last_conv_nth [OF ne] by simp
    note this ne
    then show ?thesis
      using assms(2) e by (simp add: nth_append)
  qed
qed

lemma ga_loop_cil_elitism:
  "ga_loop_cil bounds pop_size cr mr ms pf n (population, fitness, h, g)
     = Inr (population', fitness', h', g') \<Longrightarrow>
   pf \<noteq> 0 \<Longrightarrow> evaluate population pf = Inr fitness \<Longrightarrow>
   nonincreasing (best_hist h) \<Longrightarrow>
   \<forall>x\<in>set (best_hist h). \<exists>f\<in>set fitness. np_le f x \<Longrightarrow>
   evaluate population' pf = Inr fitness' \<and> nonincreasing (best_hist h') \<and>
   (\<forall>x\<in>set (best_hist h'). \<exists>f\<in>set fitness'. np_le f x) \<and>
   (\<forall>f\<in>set fitness. \<exists>f'\<in>set fitness'. np_le f' f)"
proof (induction n arbitrary: population fitness h g)
  case 0
  from "0.prems"(1) have eq: "population' = population" "fitness' = fitness" "h' = h"
    by simp_all
  have nn: "NaN \<notin> set fitness"
    using evaluate_not_nan [OF "0.prems"(3,2)] .
  have "\<exists>f'\<in>set fitness. np_le f' f" if f: "f \<in> set fitness" for f
  proof -
    have "f \<noteq> NaN"
      using nn f by auto
    then show ?thesis
      using f np_le_refl by blast
  qed
  then have "\<forall>f\<in>set fitness. \<exists>f'\<in>set fitness. np_le f' f"
    by blast
  then show ?case
    unfolding eq using "0.prems"(3,4,5) by (intro conjI)
next
  case (Suc n)
  have "\<exists>s1. generation_cil bounds pop_size cr mr ms pf (population, fitness, h, g) = Inr s1 \<and>
          ga_loop_cil bounds pop_size cr mr ms pf n s1 = Inr (population', fitness', h', g')"
    using Suc.prems(1)
    by (cases "generation_cil bounds pop_size cr mr ms pf (population, fitness, h, g)")
      (simp_all del: generation_cil.simps)
  then obtain p1 f1 h1 g1 where
    s: "generation_cil bounds pop_size cr mr ms pf (population, fitness, h, g)
          = Inr (p1, f1, h1, g1)"
    and r: "ga_loop_cil bounds pop_size cr mr ms pf n (p1, f1, h1, g1)
          = Inr (population', fitness', h', g')"
    by (metis prod_cases4)
  from s Suc.prems(3,2) obtain b where
    bf: "b < length fitness"
    and h1: "best_hist h1 = best_hist h @ [fitness ! b]"
    and m: "\<forall>f\<in>set fitness. np_le (fitness ! b) f"
    and e: "evaluate p1 pf = Inr f1"
    and el: "fitness ! b \<in> set f1"
    by (rule generation_cil_elite)
  have self: "np_le (fitness ! b) (fitness ! b)"
    using m bf nth_mem [of b fitness] by blast
  have below: "np_le (fitness ! b) x" if x: "x \<in> set (best_hist h)" for x
  proof -
    obtain f where f: "f \<in> set fitness" "np_le f x"
      using Suc.prems(5) x by blast
    have "np_le (fitness ! b) f"
      using m f(1) by blast
    then show ?thesis
      using f(2) by (rule np_le_trans)
  qed
  have ni: "nonincreasing (best_hist h1)"
    unfolding h1
  proof (rule nonincreasing_snoc)
    show "nonincreasing (best_hist h)"
      using Suc.prems(4) .
    show "np_le (fitness ! b) (last (best_hist h))" if "best_hist h \<noteq> []"
      using below [OF last_in_set [OF that]] .
  qed
  have cover: "\<forall>x\<in>set (best_hist h1). \<exists>f\<in>set f1. np_le f x"
  proof
    fix x
    assume "x \<in> set (best_hist h1)"
    then have "x \<in> set (best_hist h) \<or> x = fitness ! b"
      unfolding h1 by auto
    then have "np_le (fitness ! b) x"
      using below self by blast
    then show "\<exists>f\<in>set f1. np_le f x"
      using el by blast
  qed
  have rest: "evaluate population' pf = Inr fitness' \<and> nonincreasing (best_hist h') \<and>
     (\<forall>x\<in>set (best_hist h'). \<exists>f\<in>set fitness'. np_le f x) \<and>
     (\<forall>f\<in>set f1. \<exists>f'\<in>set fitness'. np_le f' f)"
    using Suc.IH [OF r Suc.prems(2) e ni cover] .
  have r4: "\<forall>f\<in>set f1. \<exists>f'\<in>set fitness'. np_le f' f"
    using rest by (elim conjE)
  have "\<exists>f'\<in>set fitness'. np_le f' f" if "f \<in> set fitness" for f
  proof -
    obtain f' where b': "f' \<in> set fitness'" "np_le f' (fitness ! b)"
      using r4 el by blast
    have "np_le (fitness ! b) f"
      using m that by blast
    then have "np_le f' f"
      using b'(2) np_le_trans by blast
    then show ?thesis
      using b'(1) by blast
  qed
  then have "\<forall>f\<in>set fitness. \<exists>f'\<in>set fitness'. np_le f' f"
    by blast
  with rest show ?case
    by (elim conjE) (intro conjI)
qed

lemma ga_loop_cil_add:
  "ga_loop_cil bounds pop_size cr mr ms pf (a + b) s =
     (case ga_loop_cil bounds pop_size cr mr ms pf a s of
        Inl e \<Rightarrow> Inl e
      | Inr s' \<Rightarrow> ga_loop_cil bounds pop_size cr mr ms pf b s')"
  by (induction a arbitrary: s) (simp_all split: sum.splits del: generation_cil.simps)

lemma fitness_pp_not_nan: "NaN \<notin> set (map (\<lambda>ind. fitness_pp ind pf) pop)"
  using fitness_pp_finite by (auto simp: image_iff) (metis npfloat.distinct(5))



lemma generation_pp_elite:
  assumes "generation_pp pop_size pc pm pf (pop, fitnesses, h, g)
             = Inr (pop', fitnesses', h', g')"
    and "fitnesses = map (\<lambda>ind. fitness_pp ind pf) pop"
  obtains b where
    "np_argmin fitnesses = Inr b" "b < length fitnesses"
    "best_fit_hist h' = best_fit_hist h @ [fitnesses ! b]"
    "\<forall>f\<in>set fitnesses. np_le (fitnesses ! b) f"
    "fitnesses' = map (\<lambda>ind. fitness_pp ind pf) pop'"
    "fitnesses ! b \<in> set fitnesses'"
proof -
  from assms(1) obtain b worst_idx where
    a: "np_argmin fitnesses = Inr b" and bp: "b < length pop"
    and bf: "b < length fitnesses"
    and h': "h' = \<lparr>t_hist = t_hist h @ [fst (pop ! b)],
           k_hist = k_hist h @ [snd (pop ! b)],
           Q_hist = Q_hist h @ [heat_flow_pp (snd (pop ! b)) (fst (pop ! b))],
           best_fit_hist = best_fit_hist h @ [fitnesses ! b],
           mean_fit_hist = mean_fit_hist h @ [np_mean fitnesses],
           worst_fit_hist = worst_fit_hist h @ [fitnesses ! worst_idx]\<rparr>"
    and l: "breed_loop_pp pop_size pc pm pop fitnesses [pop ! b] g = Inr (pop', g')"
    and e: "fitnesses' = map (\<lambda>ind. fitness_pp ind pf) pop'"
    by (rule generation_pp_elim)
  have nn: "NaN \<notin> set fitnesses"
    unfolding assms(2) by (rule fitness_pp_not_nan)
  have m: "\<forall>f\<in>set fitnesses. np_le (fitnesses ! b) f"
    using np_argmin_min [OF a nn] by simp
  obtain more where p': "pop' = pop ! b # more"
    using breed_loop_pp_prefix [OF l] by auto
  have "fitnesses ! b = fitness_pp (pop ! b) pf"
    using bp assms(2) by simp
  then have "fitnesses ! b \<in> set fitnesses'"
    unfolding e p' by simp
  then show ?thesis
    using that a bf h' m e by simp
qed

lemma ga_loop_pp_elitism:
  "ga_loop_pp pop_size pc pm pf n (pop, fitnesses, h, g) = Inr (pop', fitnesses', h', g') \<Longrightarrow>
   fitnesses = map (\<lambda>ind. fitness_pp ind pf) pop \<Longrightarrow>
   nonincreasing (best_fit_hist h) \<Longrightarrow>
   \<forall>x\<in>set (best_fit_hist h). \<exists>f\<in>set fitnesses. np_le f x \<Longrightarrow>
   fitnesses' = map (\<lambda>ind. fitness_pp ind pf) pop' \<and> nonincreasing (best_fit_hist h') \<and>
   (\<forall>x\<in>set (best_fit_hist h'). \<exists>f\<in>set fitnesses'. np_le f x) \<and>
   (\<forall>f\<in>set fitnesses. \<exists>f'\<in>set fitnesses'. np_le f' f)"
proof (induction n arbitrary: pop fitnesses h g)
  case 0
  from "0.prems"(1) have eq: "pop' = pop" "fitnesses' = fitnesses" "h' = h"
    by simp_all
  have nn: "NaN \<notin> set fitnesses"
    unfolding "0.prems"(2) by (rule fitness_pp_not_nan)
  have "\<exists>f'\<in>set fitnesses. np_le f' f" if f: "f \<in> set fitnesses" for f
  proof -
    have "f \<noteq> NaN"
      using nn f by auto
    then show ?thesis
      using f np_le_refl by blast
  qed
  then have "\<forall>f\<in>set fitnesses. \<exists>f'\<in>set fitnesses. np_le f' f"
    by blast
  then show ?case
    unfolding eq using "0.prems"(2,3,4) by (intro conjI)
next
  case (Suc n)
  have "\<exists>s1. generation_pp pop_size pc pm pf (pop, fitnesses, h, g) = Inr s1 \<and>
          ga_loop_pp pop_size pc pm pf n s1 = Inr (pop', fitnesses', h', g')"
    using Suc.prems(1)
    by (cases "generation_pp pop_size pc pm pf (pop, fitnesses, h, g)")
      (simp_all del: generation_pp.simps)
  then obtain p1 f1 h1 g1 where
    s: "generation_pp pop_size pc pm pf (pop, fitnesses, h, g) = Inr (p1, f1, h1, g1)"
    and r: "ga_loop_pp pop_size pc pm pf n (p1, f1, h1, g1) = Inr (pop', fitnesses', h', g')"
    by (metis prod_cases4)
  from s Suc.prems(2) obtain b where
    bf: "b < length fitnesses"
    and h1: "best_fit_hist h1 = best_fit_hist h @ [fitnesses ! b]"
    and m: "\<forall>f\<in>set fitnesses. np_le (fitnesses ! b) f"
    and e: "f1 = map (\<lambda>ind. fitness_pp ind pf) p1"
    and el: "fitnesses ! b \<in> set f1"
    by (rule generation_pp_elite)
  have self: "np_le (fitnesses ! b) (fitnesses ! b)"
    using m bf nth_mem [of b fitnesses] by blast
  have below: "np_le (fitnesses ! b) x" if x: "x \<in> set (best_fit_hist h)" for x
  proof -
    obtain f where f: "f \<in> set fitnesses" "np_le f x"
      using Suc.prems(4) x by blast
    have "np_le (fitnesses ! b) f"
      using m f(1) by blast
    then show ?thesis
      using f(2) by (rule np_le_trans)
  qed
  have ni: "nonincreasing (best_fit_hist h1)"
    unfolding h1
  proof (rule nonincreasing_snoc)
    show "nonincreasing (best_fit_hist h)"
      using Suc.prems(3) .
    show "np_le (fitnesses ! b) (last (best_fit_hist h))" if ne: "best_fit_hist h \<noteq> []"
      using below [OF last_in_set [OF ne]] .
  qed
  have cover: "\<forall>x\<in>set (best_fit_hist h1). \<exists>f\<in>set f1. np_le f x"
  proof
    fix x
    assume "x \<in> set (best_fit_hist h1)"
    then have "x \<in> set (best_fit_hist h) \<or> x = fitnesses ! b"
      unfolding h1 by auto
    then have "np_le (fitnesses ! b) x"
      using below self by blast
    then show "\<exists>f\<in>set f1. np_le f x"
      using el by blast
  qed
  have rest: "fitnesses' = map (\<lambda>ind. fitness_pp ind pf) pop' \<and>
     nonincreasing (best_fit_hist h') \<and>
     (\<forall>x\<in>set (best_fit_hist h'). \<exists>f\<in>set fitnesses'. np_le f x) \<and>
     (\<forall>f\<in>set f1. \<exists>f'\<in>set fitnesses'. np_le f' f)"
    using Suc.IH [OF r e ni cover] .
  have r4: "\<forall>f\<in>set f1. \<exists>f'\<in>set fitnesses'. np_le f' f"
    using rest by (elim conjE)
  have "\<exists>f'\<in>set fitnesses'. np_le f' f" if f: "f \<in> set fitnesses" for f
  proof -
    obtain f' where b': "f' \<in> set fitnesses'" "np_le f' (fitnesses ! b)"
      using r4 el by blast
    have "np_le (fitnesses ! b) f"
      using m f by blast
    then have "np_le f' f"
      using b'(2) np_le_trans by blast
    then show ?thesis
      using b'(1) by blast
  qed
  then have "\<forall>f\<in>set fitnesses. \<exists>f'\<in>set fitnesses'. np_le f' f"
    by blast
  with rest show ?case
    by (elim conjE) (intro conjI)
qed

lemma ga_loop_pp_add:
  "ga_loop_pp pop_size pc pm pf (a + b) s =
     (case ga_loop_pp pop_size pc pm pf a s of
        Inl e \<Rightarrow> Inl e
      | Inr s' \<Rightarrow> ga_loop_pp pop_size pc pm pf b s')"
  by (induction a arbitrary: s) (simp_all split: sum.splits del: generation_pp.simps)

lemma init_cil_elim:
  assumes "init_cil mt bounds pop_size pf seed = Inr (population, fitness, h, g)"
  shows "evaluate population pf = Inr fitness"
    and "h = \<lparr>best_hist = [], worst_hist = [], avg_hist = [], best_t_hist = [],
               best_Q_hist = []\<rparr>"
  using assms
  by (auto simp: init_cil_def Let_def split_beta split: sum.splits if_splits)

lemma run_GA_cil_elim:
  assumes "run_GA_cil mt g0 bounds pop_size generations cr mr ms pf seed = Inr (res, g)"
  obtains p0 f0 h0 g1 population fitness h b where
    "init_cil mt bounds pop_size pf seed = Inr (p0, f0, h0, g1)"
    "ga_loop_cil bounds pop_size cr mr ms pf (nat generations) (p0, f0, h0, g1)
       = Inr (population, fitness, h, g)"
    "np_argmin fitness = Inr b" "b < length population" "b < length fitness"
    "res = \<lparr>best_hist = best_hist h, worst_hist = worst_hist h, avg_hist = avg_hist h,
            best_t_hist = best_t_hist h, best_Q_hist = best_Q_hist h,
            best_individual = population ! b, best_fitness = fitness ! b\<rparr>"
proof -
  from assms obtain s0 where
    i: "init_cil mt bounds pop_size pf seed = Inr s0"
    by (auto simp: run_GA_cil_def split: sum.splits)
  obtain p0 f0 h0 g1 where s0: "s0 = (p0, f0, h0, g1)"
    by (cases s0) auto
  from assms i obtain s1 where
    l: "ga_loop_cil bounds pop_size cr mr ms pf (nat generations) s0 = Inr s1"
    by (auto simp: run_GA_cil_def split: sum.splits)
  obtain population fitness h g' where s1: "s1 = (population, fitness, h, g')"
    by (cases s1) auto
  from assms i l s1 obtain b where
    "np_argmin fitness = Inr b" "b < length population" "b < length fitness" "g' = g"
    "res = \<lparr>best_hist = best_hist h, worst_hist = worst_hist h, avg_hist = avg_hist h,
            best_t_hist = best_t_hist h, best_Q_hist = best_Q_hist h,
            best_individual = population ! b, best_fitness = fitness ! b\<rparr>"
    by (auto simp: run_GA_cil_def item_def split: sum.splits if_splits)
  then show ?thesis
    using that i l s0 s1 by blast
qed

lemma run_GA_cil_best:
  assumes run: "run_GA_cil mt g0 bounds pop_size generations cr mr ms pf seed = Inr (res, g)"
    and pf: "pf \<noteq> 0"
  shows "nonincreasing (best_hist res) \<and>
         (\<forall>x\<in>set (best_hist res). np_le (best_fitness res) x) \<and>
         objective (best_individual res) pf = Inr (best_fitness res)"
proof -
  from run obtain p0 f0 h0 g1 population fitness h b where
    i: "init_cil mt bounds pop_size pf seed = Inr (p0, f0, h0, g1)"
    and l: "ga_loop_cil bounds pop_size cr mr ms pf (nat generations) (p0, f0, h0, g1)
       = Inr (population, fitness, h, g)"
    and a: "np_argmin fitness = Inr b" and bp: "b < length population"
    and res: "res = \<lparr>best_hist = best_hist h, worst_hist = worst_hist h,
            avg_hist = avg_hist h, best_t_hist = best_t_hist h, best_Q_hist = best_Q_hist h,
            best_individual = population ! b, best_fitness = fitness ! b\<rparr>"
    by (rule run_GA_cil_elim)
  have e0: "evaluate p0 pf = Inr f0" and h0: "best_hist h0 = []"
    using init_cil_elim [OF i] by simp_all
  have ni0: "nonincreasing (best_hist h0)"
    unfolding h0 by (simp add: nonincreasing_def)
  have c0: "\<forall>x\<in>set (best_hist h0). \<exists>f\<in>set f0. np_le f x"
    unfolding h0 by simp
  note inv = ga_loop_cil_elitism [OF l pf e0 ni0 c0]
  have e: "evaluate population pf = Inr fitness"
    using inv [THEN conjunct1] .
  have ni: "nonincreasing (best_hist h)"
    using inv [THEN conjunct2, THEN conjunct1] .
  have cover: "\<forall>x\<in>set (best_hist h). \<exists>f\<in>set fitness. np_le f x"
    using inv [THEN conjunct2, THEN conjunct2, THEN conjunct1] .
  have m: "\<forall>f\<in>set fitness. np_le (fitness ! b) f"
    using np_argmin_min [OF a evaluate_not_nan [OF e pf]] by simp
  have "np_le (fitness ! b) x" if x: "x \<in> set (best_hist h)" for x
  proof -
    obtain f where f: "f \<in> set fitness" "np_le f x"
      using cover x by blast
    have "np_le (fitness ! b) f"
      using m f(1) by blast
    then show ?thesis
      using f(2) by (rule np_le_trans)
  qed
  then have "\<forall>x\<in>set (best_hist h). np_le (fitness ! b) x"
    by blast
  then show ?thesis
    using ni evaluate_nth [OF e bp] unfolding res by simp
qed

lemma run_GA_cil_global_best:
  assumes run: "run_GA_cil mt g0 bounds pop_size generations cr mr ms pf seed = Inr (res, g)"
    and pf: "pf \<noteq> 0"
    and i: "init_cil mt bounds pop_size pf seed = Inr s0"
    and m: "m \<le> nat generations"
    and lm: "ga_loop_cil bounds pop_size cr mr ms pf m s0 = Inr (pm, fm, hm, gm)"
  shows "\<forall>f\<in>set fm. np_le (best_fitness res) f"
proof -
  from run obtain p0 f0 h0 g1 population fitness h b where
    i': "init_cil mt bounds pop_size pf seed = Inr (p0, f0, h0, g1)"
    and l: "ga_loop_cil bounds pop_size cr mr ms pf (nat generations) (p0, f0, h0, g1)
       = Inr (population, fitness, h, g)"
    and a: "np_argmin fitness = Inr b"
    and res: "res = \<lparr>best_hist = best_hist h, worst_hist = worst_hist h,
            avg_hist = avg_hist h, best_t_hist = best_t_hist h, best_Q_hist = best_Q_hist h,
            best_individual = population ! b, best_fitness = fitness ! b\<rparr>"
    by (rule run_GA_cil_elim)
  have s0: "s0 = (p0, f0, h0, g1)"
    using i i' by simp
  have e0: "evaluate p0 pf = Inr f0" and h0: "best_hist h0 = []"
    using init_cil_elim [OF i'] by simp_all
  have ni0: "nonincreasing (best_hist h0)"
    unfolding h0 by (simp add: nonincreasing_def)
  have c0: "\<forall>x\<in>set (best_hist h0). \<exists>f\<in>set f0. np_le f x"
    unfolding h0 by simp
  note em = ga_loop_cil_elitism [OF lm [unfolded s0] pf e0 ni0 c0]
  have split: "nat generations = m + (nat generations - m)"
    using m by simp
  have rest: "ga_loop_cil bounds pop_size cr mr ms pf (nat generations - m) (pm, fm, hm, gm)
       = Inr (population, fitness, h, g)"
    using l lm [unfolded s0] ga_loop_cil_add [of bounds pop_size cr mr ms pf m
        "nat generations - m" "(p0, f0, h0, g1)"] split
    by simp
  note fin = ga_loop_cil_elitism [OF rest pf em [THEN conjunct1]
      em [THEN conjunct2, THEN conjunct1] em [THEN conjunct2, THEN conjunct2, THEN conjunct1]]
  have e: "evaluate population pf = Inr fitness"
    using fin [THEN conjunct1] .
  have down: "\<forall>f\<in>set fm. \<exists>f'\<in>set fitness. np_le f' f"
    using fin [THEN conjunct2, THEN conjunct2, THEN conjunct2] .
  have mn: "\<forall>f\<in>set fitness. np_le (fitness ! b) f"
    using np_argmin_min [OF a evaluate_not_nan [OF e pf]] by simp
  have "np_le (fitness ! b) f" if f: "f \<in> set fm" for f
  proof -
    obtain f' where f': "f' \<in> set fitness" "np_le f' f"
      using down f by blast
    have "np_le (fitness ! b) f'"
      using mn f'(1) by blast
    then show ?thesis
      using f'(2) by (rule np_le_trans)
  qed
  then show ?thesis
    unfolding res by simp
qed

lemma init_pp_elim:
  assumes "init_pp g0 pop_size pf = Inr (pop, fitnesses, h, g)"
  shows "fitnesses = map (\<lambda>ind. fitness_pp ind pf) pop"
    and "h = \<lparr>t_hist = [], k_hist = [], Q_hist = [], best_fit_hist = [],
               mean_fit_hist = [], worst_fit_hist = []\<rparr>"
  using assms
  by (auto simp: init_pp_def split: sum.splits)

lemma run_GA_pp_elim:
  assumes "run_GA_pp g0 pop_size generations pc pm pf = Inr ((t_best, k_best, Q_best, h), g)"
  obtains p0 f0 h0 g1 pop fitnesses b where
    "init_pp g0 pop_size pf = Inr (p0, f0, h0, g1)"
    "ga_loop_pp pop_size pc pm pf (nat generations) (p0, f0, h0, g1)
       = Inr (pop, fitnesses, h, g)"
    "np_argmin fitnesses = Inr b" "b < length pop"
    "pop ! b = (t_best, k_best)" "Q_best = heat_flow_pp k_best t_best"
proof -
  from assms obtain s0 where
    i: "init_pp g0 pop_size pf = Inr s0"
    by (auto simp: run_GA_pp_def split: sum.splits)
  obtain p0 f0 h0 g1 where s0: "s0 = (p0, f0, h0, g1)"
    by (cases s0) auto
  from assms i obtain s1 where
    l: "ga_loop_pp pop_size pc pm pf (nat generations) s0 = Inr s1"
    by (auto simp: run_GA_pp_def split: sum.splits)
  obtain pop fitnesses h' g' where s1: "s1 = (pop, fitnesses, h', g')"
    by (cases s1) auto
  from assms i l s1 obtain b where
    "np_argmin fitnesses = Inr b" "b < length pop" "g' = g" "h' = h"
    "pop ! b = (t_best, k_best)" "Q_best = heat_flow_pp k_best t_best"
    by (auto simp: run_GA_pp_def item_def split: sum.splits if_splits prod.splits)
  then show ?thesis
    using that i l s0 s1 by blast
qed

lemma run_GA_pp_best:
  assumes run: "run_GA_pp g0 pop_size generations pc pm pf
                  = Inr ((t_best, k_best, Q_best, h), g)"
  shows "nonincreasing (best_fit_hist h) \<and>
         (\<forall>x\<in>set (best_fit_hist h). np_le (fitness_pp (t_best, k_best) pf) x)"
proof -
  from run obtain p0 f0 h0 g1 pop fitnesses b where
    i: "init_pp g0 pop_size pf = Inr (p0, f0, h0, g1)"
    and l: "ga_loop_pp pop_size pc pm pf (nat generations) (p0, f0, h0, g1)
       = Inr (pop, fitnesses, h, g)"
    and a: "np_argmin fitnesses = Inr b" and bp: "b < length pop"
    and best: "pop ! b = (t_best, k_best)"
    by (rule run_GA_pp_elim)
  have e0: "f0 = map (\<lambda>ind. fitness_pp ind pf) p0" and h0: "best_fit_hist h0 = []"
    using init_pp_elim [OF i] by simp_all
  have ni0: "nonincreasing (best_fit_hist h0)"
    unfolding h0 by (simp add: nonincreasing_def)
  have c0: "\<forall>x\<in>set (best_fit_hist h0). \<exists>f\<in>set f0. np_le f x"
    unfolding h0 by simp
  note inv = ga_loop_pp_elitism [OF l e0 ni0 c0]
  have e: "fitnesses = map (\<lambda>ind. fitness_pp ind pf) pop"
    using inv [THEN conjunct1] .
  have ni: "nonincreasing (best_fit_hist h)"
    using inv [THEN conjunct2, THEN conjunct1] .
  have cover: "\<forall>x\<in>set (best_fit_hist h). \<exists>f\<in>set fitnesses. np_le f x"
    using inv [THEN conjunct2, THEN conjunct2, THEN conjunct1] .
  have nn: "NaN \<notin> set fitnesses"
    unfolding e by (rule fitness_pp_not_nan)
  have m: "\<forall>f\<in>set fitnesses. np_le (fitnesses ! b) f"
    using np_argmin_min [OF a nn] by simp
  have fb: "fitnesses ! b = fitness_pp (t_best, k_best) pf"
    using bp best unfolding e by simp
  have "np_le (fitnesses ! b) x" if x: "x \<in> set (best_fit_hist h)" for x
  proof -
    obtain f where f: "f \<in> set fitnesses" "np_le f x"
      using cover x by blast
    have "np_le (fitnesses ! b) f"
      using m f(1) by blast
    then show ?thesis
      using f(2) by (rule np_le_trans)
  qed
  then have "\<forall>x\<in>set (best_fit_hist h). np_le (fitnesses ! b) x"
    by blast
  then show ?thesis
    using ni unfolding fb by simp
qed

lemma run_GA_pp_global_best:
  assumes run: "run_GA_pp g0 pop_size generations pc pm pf
                  = Inr ((t_best, k_best, Q_best, h), g)"
    and i: "init_pp g0 pop_size pf = Inr s0"
    and m: "m \<le> nat generations"
    and lm: "ga_loop_pp pop_size pc pm pf m s0 = Inr (pm', fm, hm, gm)"
  shows "\<forall>f\<in>set fm. np_le (fitness_pp (t_best, k_best) pf) f"
proof -
  from run obtain p0 f0 h0 g1 pop fitnesses b where
    i': "init_pp g0 pop_size pf = Inr (p0, f0, h0, g1)"
    and l: "ga_loop_pp pop_size pc pm pf (nat generations) (p0, f0, h0, g1)
       = Inr (pop, fitnesses, h, g)"
    and a: "np_argmin fitnesses = Inr b" and bp: "b < length pop"
    and best: "pop ! b = (t_best, k_best)"
    by (rule run_GA_pp_elim)
  have s0: "s0 = (p0, f0, h0, g1)"
    using i i' by simp
  have e0: "f0 = map (\<lambda>ind. fitness_pp ind pf) p0" and h0: "best_fit_hist h0 = []"
    using init_pp_elim [OF i'] by simp_all
  have ni0: "nonincreasing (best_fit_hist h0)"
    unfolding h0 by (simp add: nonincreasing_def)
  have c0: "\<forall>x\<in>set (best_fit_hist h0). \<exists>f\<in>set f0. np_le f x"
    unfolding h0 by simp
  note em = ga_loop_pp_elitism [OF lm [unfolded s0] e0 ni0 c0]
  have split: "nat generations = m + (nat generations - m)"
    using m by simp
  have rest: "ga_loop_pp pop_size pc pm pf (nat generations - m) (pm', fm, hm, gm)
       = Inr (pop, fitnesses, h, g)"
    using l lm [unfolded s0] ga_loop_pp_add [of pop_size pc pm pf m
        "nat generations - m" "(p0, f0, h0, g1)"] split
    by simp
  note fin = ga_loop_pp_elitism [OF rest em [THEN conjunct1]
      em [THEN conjunct2, THEN conjunct1] em [THEN conjunct2, THEN conjunct2, THEN conjunct1]]
  have e: "fitnesses = map (\<lambda>ind. fitness_pp ind pf) pop"
    using fin [THEN conjunct1] .
  have down: "\<forall>f\<in>set fm. \<exists>f'\<in>set fitnesses. np_le f' f"
    using fin [THEN conjunct2, THEN conjunct2, THEN conjunct2] .
  have nn: "NaN \<notin> set fitnesses"
    unfolding e by (rule fitness_pp_not_nan)
  have mn: "\<forall>f\<in>set fitnesses. np_le (fitnesses ! b) f"
    using np_argmin_min [OF a nn] by simp
  have fb: "fitnesses ! b = fitness_pp (t_best, k_best) pf"
    using bp best unfolding e by simp
  have "np_le (fitnesses ! b) f" if f: "f \<in> set fm" for f
  proof -
    obtain f' where f': "f' \<in> set fitnesses" "np_le f' f"
      using down f by blast
    have "np_le (fitnesses ! b) f'"
      using mn f'(1) by blast
    then show ?thesis
      using f'(2) by (rule np_le_trans)
  qed
  then show ?thesis
    unfolding fb by simp
qed

lemma generation_cil_carries:
  assumes s: "generation_cil bounds pop_size cr mr ms pf (population, fitness, h, g)
                = Inr (population', fitness', h', g')"
    and e0: "evaluate population pf = Inr fitness"
  shows "\<exists>b. np_argmin fitness = Inr b \<and> best_hist h' = best_hist h @ [fitness ! b] \<and>
           population' ! 0 = population ! b \<and> fitness' ! 0 = fitness ! b"
proof -
  from s obtain b worst where
    a: "np_argmin fitness = Inr b" and bp: "b < length population"
    and h': "h' = \<lparr>best_hist = best_hist h @ [fitness ! b],
           worst_hist = worst_hist h @ [worst],
           avg_hist = avg_hist h @ [np_mean fitness],
           best_t_hist = best_t_hist h @ [population ! b ! 1],
           best_Q_hist = best_Q_hist h
             @ [heat_flow_cil (population ! b ! 0) (population ! b ! 1)]\<rparr>"
    and l: "breed_loop_cil bounds pop_size cr mr ms population fitness [population ! b] g
       = Inr (population', g')"
    and e: "evaluate population' pf = Inr fitness'"
    by (rule generation_cil_elim)
  obtain more where p': "population' = population ! b # more"
    using breed_loop_cil_prefix [OF l] by auto
  have "objective (population' ! 0) pf = Inr (fitness' ! 0)"
    using evaluate_nth [OF e, of 0] p' by simp
  moreover have "objective (population ! b) pf = Inr (fitness ! b)"
    using evaluate_nth [OF e0 bp] .
  ultimately have "fitness' ! 0 = fitness ! b"
    using p' by simp
  then show ?thesis
    using a h' p' by simp
qed

lemma generation_pp_carries:
  assumes s: "generation_pp pop_size pc pm pf (pop, fitnesses, h, g)
                = Inr (pop', fitnesses', h', g')"
    and e0: "fitnesses = map (\<lambda>ind. fitness_pp ind pf) pop"
  shows "\<exists>b. np_argmin fitnesses = Inr b \<and>
           best_fit_hist h' = best_fit_hist h @ [fitnesses ! b] \<and>
           pop' ! 0 = pop ! b \<and> fitnesses' ! 0 = fitnesses ! b"
proof -
  from s obtain b worst_idx where
    a: "np_argmin fitnesses = Inr b" and bp: "b < length pop"
    and h': "h' = \<lparr>t_hist = t_hist h @ [fst (pop ! b)],
           k_hist = k_hist h @ [snd (pop ! b)],
           Q_hist = Q_hist h @ [heat_flow_pp (snd (pop ! b)) (fst (pop ! b))],
           best_fit_hist = best_fit_hist h @ [fitnesses ! b],
           mean_fit_hist = mean_fit_hist h @ [np_mean fitnesses],
           worst_fit_hist = worst_fit_hist h @ [fitnesses ! worst_idx]\<rparr>"
    and l: "breed_loop_pp pop_size pc pm pop fitnesses [pop ! b] g = Inr (pop', g')"
    and e: "fitnesses' = map (\<lambda>ind. fitness_pp ind pf) pop'"
    by (rule generation_pp_elim)
  obtain more where p': "pop' = pop ! b # more"
    using breed_loop_pp_prefix [OF l] by auto
  have "fitnesses' ! 0 = fitness_pp (pop ! b) pf"
    using e p' by simp
  moreover have "fitnesses ! b = fitness_pp (pop ! b) pf"
    using e0 bp by simp
  ultimately show ?thesis
    using a h' p' by simp
qed

text \<open>
  Claim C1. In a run of \<^verbatim>\<open>cilindro_ga.py\<close> with a penalty factor other than 0 (the
  specification takes it positive), the best fitness values of the history are
  non-increasing from one generation to the next, the best fitness returned is \<^verbatim>\<open><=\<close>
  every entry of the history, and it is the fitness of the individual returned.
  Moreover it is \<^verbatim>\<open><=\<close> the fitness of every individual of every generation \<open>m\<close> of
  the run: it is the best found over the whole run. The same holds for
  \<^verbatim>\<open>placa_plana_ga.py\<close>, whose result holds the best individual \<open>(t_best, k_best)\<close>
  and not its fitness. The reason is the elite: one generation appends the least
  fitness of its population to the history, and the first individual of the next
  population is the individual of that fitness, unchanged, and is evaluated to the same
  fitness.
\<close>

theorem elitism_monotone:
  "(penalty_factor \<noteq> 0 \<and>
    run_GA_cil mt g0 bounds pop_size generations crossover_rate mutation_rate mutation_scale
      penalty_factor seed = Inr (res, g)
    \<longrightarrow> nonincreasing (best_hist res) \<and>
        (\<forall>x\<in>set (best_hist res). np_le (best_fitness res) x) \<and>
        objective (best_individual res) penalty_factor = Inr (best_fitness res)) \<and>
   (penalty_factor \<noteq> 0 \<and>
    run_GA_cil mt g0 bounds pop_size generations crossover_rate mutation_rate mutation_scale
      penalty_factor seed = Inr (res, g) \<and>
    init_cil mt bounds pop_size penalty_factor seed = Inr s0 \<and> m \<le> nat generations \<and>
    ga_loop_cil bounds pop_size crossover_rate mutation_rate mutation_scale penalty_factor m s0
      = Inr (population, fitness, h, gm)
    \<longrightarrow> (\<forall>f\<in>set fitness. np_le (best_fitness res) f)) \<and>
   (run_GA_pp gp0 pop_size generations pc pm penalty_factor
      = Inr ((t_best, k_best, Q_best, hp), gp)
    \<longrightarrow> nonincreasing (best_fit_hist hp) \<and>
        (\<forall>x\<in>set (best_fit_hist hp). np_le (fitness_pp (t_best, k_best) penalty_factor) x)) \<and>
   (run_GA_pp gp0 pop_size generations pc pm penalty_factor
      = Inr ((t_best, k_best, Q_best, hp), gp) \<and>
    init_pp gp0 pop_size penalty_factor = Inr sp0 \<and> m \<le> nat generations \<and>
    ga_loop_pp pop_size pc pm penalty_factor m sp0 = Inr (pop, fitnesses, hm, gpm)
    \<longrightarrow> (\<forall>f\<in>set fitnesses. np_le (fitness_pp (t_best, k_best) penalty_factor) f)) \<and>
   (generation_cil bounds pop_size crossover_rate mutation_rate mutation_scale penalty_factor
      (population1, fitness1, h1, g1) = Inr (population2, fitness2, h2, g2) \<and>
    evaluate population1 penalty_factor = Inr fitness1
    \<longrightarrow> (\<exists>b. np_argmin fitness1 = Inr b \<and> best_hist h2 = best_hist h1 @ [fitness1 ! b] \<and>
           population2 ! 0 = population1 ! b \<and> fitness2 ! 0 = fitness1 ! b)) \<and>
   (generation_pp pop_size pc pm penalty_factor (pop1, fitnesses1, hp1, gp1)
      = Inr (pop2, fitnesses2, hp2, gp2) \<and>
    fitnesses1 = map (\<lambda>ind. fitness_pp ind penalty_factor) pop1
    \<longrightarrow> (\<exists>b. np_argmin fitnesses1 = Inr b \<and>
           best_fit_hist hp2 = best_fit_hist hp1 @ [fitnesses1 ! b] \<and>
           pop2 ! 0 = pop1 ! b \<and> fitnesses2 ! 0 = fitnesses1 ! b))"
proof (intro conjI impI)
  assume a: "penalty_factor \<noteq> 0 \<and>
    run_GA_cil mt g0 bounds pop_size generations crossover_rate mutation_rate mutation_scale
      penalty_factor seed = Inr (res, g)"
  note b = run_GA_cil_best [OF a [THEN conjunct2] a [THEN conjunct1]]
  show "nonincreasing (best_hist res)"
    using b [THEN conjunct1] .
  show "\<forall>x\<in>set (best_hist res). np_le (best_fitness res) x"
    using b [THEN conjunct2, THEN conjunct1] .
  show "objective (best_individual res) penalty_factor = Inr (best_fitness res)"
    using b [THEN conjunct2, THEN conjunct2] .
next
  assume a: "penalty_factor \<noteq> 0 \<and>
    run_GA_cil mt g0 bounds pop_size generations crossover_rate mutation_rate mutation_scale
      penalty_factor seed = Inr (res, g) \<and>
    init_cil mt bounds pop_size penalty_factor seed = Inr s0 \<and> m \<le> nat generations \<and>
    ga_loop_cil bounds pop_size crossover_rate mutation_rate mutation_scale penalty_factor m s0
      = Inr (population, fitness, h, gm)"
  show "\<forall>f\<in>set fitness. np_le (best_fitness res) f"
    using run_GA_cil_global_best [OF a [THEN conjunct2, THEN conjunct1] a [THEN conjunct1]
        a [THEN conjunct2, THEN conjunct2, THEN conjunct1]
        a [THEN conjunct2, THEN conjunct2, THEN conjunct2, THEN conjunct1]
        a [THEN conjunct2, THEN conjunct2, THEN conjunct2, THEN conjunct2]] .
next
  assume a: "run_GA_pp gp0 pop_size generations pc pm penalty_factor
      = Inr ((t_best, k_best, Q_best, hp), gp)"
  note b = run_GA_pp_best [OF a]
  show "nonincreasing (best_fit_hist hp)"
    using b [THEN conjunct1] .
  show "\<forall>x\<in>set (best_fit_hist hp). np_le (fitness_pp (t_best, k_best) penalty_factor) x"
    using b [THEN conjunct2] .
next
  assume a: "run_GA_pp gp0 pop_size generations pc pm penalty_factor
      = Inr ((t_best, k_best, Q_best, hp), gp) \<and>
    init_pp gp0 pop_size penalty_factor = Inr sp0 \<and> m \<le> nat generations \<and>
    ga_loop_pp pop_size pc pm penalty_factor m sp0 = Inr (pop, fitnesses, hm, gpm)"
  show "\<forall>f\<in>set fitnesses. np_le (fitness_pp (t_best, k_best) penalty_factor) f"
    using run_GA_pp_global_best [OF a [THEN conjunct1] a [THEN conjunct2, THEN conjunct1]
        a [THEN conjunct2, THEN conjunct2, THEN conjunct1]
        a [THEN conjunct2, THEN conjunct2, THEN conjunct2]] .
next
  assume a: "generation_cil bounds pop_size crossover_rate mutation_rate mutation_scale
      penalty_factor (population1, fitness1, h1, g1) = Inr (population2, fitness2, h2, g2) \<and>
    evaluate population1 penalty_factor = Inr fitness1"
  show "\<exists>b. np_argmin fitness1 = Inr b \<and> best_hist h2 = best_hist h1 @ [fitness1 ! b] \<and>
           population2 ! 0 = population1 ! b \<and> fitness2 ! 0 = fitness1 ! b"
    using generation_cil_carries [OF a [THEN conjunct1] a [THEN conjunct2]] .
next
  assume a: "generation_pp pop_size pc pm penalty_factor (pop1, fitnesses1, hp1, gp1)
      = Inr (pop2, fitnesses2, hp2, gp2) \<and>
    fitnesses1 = map (\<lambda>ind. fitness_pp ind penalty_factor) pop1"
  show "\<exists>b. np_argmin fitnesses1 = Inr b \<and>
           best_fit_hist hp2 = best_fit_hist hp1 @ [fitnesses1 ! b] \<and>
           pop2 ! 0 = pop1 ! b \<and> fitnesses2 ! 0 = fitnesses1 ! b"
    using generation_pp_carries [OF a [THEN conjunct1] a [THEN conjunct2]] .
qed

theorem elitism_monotone_witness:
  "run_GA_cil (\<lambda>seed. ex_rng) ex_rng [(0, 0), (1, 2)] 2 1 0 1 1 1 0
     = Inr (\<lparr>best_hist = [Fin (3 / 2)], worst_hist = [Fin (3 / 2)], avg_hist = [Fin (3 / 2)],
             best_t_hist = [3 / 2], best_Q_hist = [Fin 0],
             best_individual = [0, 1], best_fitness = Fin 1\<rparr>, ex_rng) \<and>
   nonincreasing [Fin (3 / 2)] \<and>
   np_le (Fin 1) (Fin (3 / 2)) \<and>
   objective [0, 1] 1 = Inr (Fin 1) \<and>
   ga_loop_cil [(0, 0), (1, 2)] 2 0 1 1 1 (Suc 0)
     ([[0, 3 / 2], [0, 3 / 2]], [Fin (3 / 2), Fin (3 / 2)],
      \<lparr>best_hist = [], worst_hist = [], avg_hist = [], best_t_hist = [],
       best_Q_hist = []\<rparr>, ex_rng)
     = Inr ([[0, 3 / 2], [0, 1]], [Fin (3 / 2), Fin 1],
          \<lparr>best_hist = [Fin (3 / 2)], worst_hist = [Fin (3 / 2)], avg_hist = [Fin (3 / 2)],
           best_t_hist = [3 / 2], best_Q_hist = [Fin 0]\<rparr>, ex_rng) \<and>
   np_le (Fin 1) (Fin 1) \<and>
   run_GA_pp (sconst 0) 2 1 0 0 1
     = Inr ((t_min, k_min, heat_flow_pp k_min t_min, ex_hist 1), sconst 0) \<and>
   nonincreasing (best_fit_hist (ex_hist 1)) \<and>
   np_le (fitness_pp (t_min, k_min) 1) (fitness_pp ex_ind 1) \<and>
   ga_loop_pp 2 0 0 1 (Suc 0)
     ([ex_ind, ex_ind], [fitness_pp ex_ind 1, fitness_pp ex_ind 1],
      \<lparr>t_hist = [], k_hist = [], Q_hist = [], best_fit_hist = [],
       mean_fit_hist = [], worst_fit_hist = []\<rparr>, sconst 0)
     = Inr ([ex_ind, ex_ind], [fitness_pp ex_ind 1, fitness_pp ex_ind 1], ex_hist 1,
            sconst 0) \<and>
   (\<exists>b. np_argmin [Fin (3 / 2), Fin (3 / 2)] = Inr b \<and>
        [Fin (3 / 2)] = [] @ [[Fin (3 / 2), Fin (3 / 2)] ! b] \<and>
        [[0, 3 / 2], [0, 1 :: real]] ! 0 = [[0, 3 / 2], [0, 3 / 2]] ! b \<and>
        [Fin (3 / 2), Fin 1] ! 0 = [Fin (3 / 2), Fin (3 / 2)] ! b) \<and>
   (\<exists>b. np_argmin [fitness_pp ex_ind 1, fitness_pp ex_ind 1] = Inr b \<and>
        best_fit_hist (ex_hist 1) = [] @ [[fitness_pp ex_ind 1, fitness_pp ex_ind 1] ! b] \<and>
        [ex_ind, ex_ind] ! 0 = [ex_ind, ex_ind] ! b \<and>
        [fitness_pp ex_ind 1, fitness_pp ex_ind 1] ! 0
          = [fitness_pp ex_ind 1, fitness_pp ex_ind 1] ! b)"
proof -
  note t = elitism_monotone [where penalty_factor = 1 and mt = "\<lambda>seed. ex_rng"
      and ?g0.0 = ex_rng and bounds = "[(0, 0), (1, 2)]" and pop_size = 2 and generations = 1
      and crossover_rate = 0 and mutation_rate = 1 and mutation_scale = 1 and seed = 0
      and res = "\<lparr>best_hist = [Fin (3 / 2)], worst_hist = [Fin (3 / 2)],
             avg_hist = [Fin (3 / 2)], best_t_hist = [3 / 2], best_Q_hist = [Fin 0],
             best_individual = [0, 1], best_fitness = Fin 1\<rparr>"
      and g = ex_rng
      and ?s0.0 = "([[0, 3 / 2], [0, 3 / 2]], [Fin (3 / 2), Fin (3 / 2)],
            \<lparr>best_hist = [], worst_hist = [], avg_hist = [], best_t_hist = [],
             best_Q_hist = []\<rparr>, ex_rng)"
      and m = "Suc 0" and population = "[[0, 3 / 2], [0, 1]]"
      and fitness = "[Fin (3 / 2), Fin 1]"
      and h = "\<lparr>best_hist = [Fin (3 / 2)], worst_hist = [Fin (3 / 2)],
           avg_hist = [Fin (3 / 2)], best_t_hist = [3 / 2], best_Q_hist = [Fin 0]\<rparr>"
      and gm = ex_rng
      and ?gp0.0 = "sconst 0" and pc = 0 and pm = 0 and t_best = t_min and k_best = k_min
      and Q_best = "heat_flow_pp k_min t_min" and hp = "ex_hist 1" and gp = "sconst 0"
      and ?sp0.0 = "([ex_ind, ex_ind], [fitness_pp ex_ind 1, fitness_pp ex_ind 1],
            \<lparr>t_hist = [], k_hist = [], Q_hist = [], best_fit_hist = [],
             mean_fit_hist = [], worst_fit_hist = []\<rparr>, sconst 0)"
      and pop = "[ex_ind, ex_ind]"
      and fitnesses = "[fitness_pp ex_ind 1, fitness_pp ex_ind 1]"
      and hm = "ex_hist 1" and gpm = "sconst 0"
      and ?population1.0 = "[[0, 3 / 2], [0, 3 / 2]]"
      and ?fitness1.0 = "[Fin (3 / 2), Fin (3 / 2)]"
      and ?h1.0 = "\<lparr>best_hist = [], worst_hist = [], avg_hist = [], best_t_hist = [],
             best_Q_hist = []\<rparr>"
      and ?g1.0 = ex_rng
      and ?population2.0 = "[[0, 3 / 2], [0, 1]]" and ?fitness2.0 = "[Fin (3 / 2), Fin 1]"
      and ?h2.0 = "\<lparr>best_hist = [Fin (3 / 2)], worst_hist = [Fin (3 / 2)],
           avg_hist = [Fin (3 / 2)], best_t_hist = [3 / 2], best_Q_hist = [Fin 0]\<rparr>"
      and ?g2.0 = ex_rng
      and ?pop1.0 = "[ex_ind, ex_ind]"
      and ?fitnesses1.0 = "[fitness_pp ex_ind 1, fitness_pp ex_ind 1]"
      and ?hp1.0 = "\<lparr>t_hist = [], k_hist = [], Q_hist = [], best_fit_hist = [],
             mean_fit_hist = [], worst_fit_hist = []\<rparr>"
      and ?gp1.0 = "sconst 0"
      and ?pop2.0 = "[ex_ind, ex_ind]"
      and ?fitnesses2.0 = "[fitness_pp ex_ind 1, fitness_pp ex_ind 1]"
      and ?hp2.0 = "ex_hist 1" and ?gp2.0 = "sconst 0"]
  have r: "run_GA_cil (\<lambda>seed. ex_rng) ex_rng [(0, 0), (1, 2)] 2 1 0 1 1 1 0
     = Inr (\<lparr>best_hist = [Fin (3 / 2)], worst_hist = [Fin (3 / 2)], avg_hist = [Fin (3 / 2)],
             best_t_hist = [3 / 2], best_Q_hist = [Fin 0],
             best_individual = [0, 1], best_fitness = Fin 1\<rparr>, ex_rng)"
    by (rule ex_run)
  have c1: "nonincreasing [Fin (3 / 2)] \<and> np_le (Fin 1) (Fin (3 / 2)) \<and>
      objective [0, 1] 1 = Inr (Fin 1)"
    using t [THEN conjunct1] r by (simp del: objective.simps)
  have c2: "np_le (Fin 1) (Fin 1)"
    using t [THEN conjunct2, THEN conjunct1] r ex_init ex_loop by simp
  have p: "run_GA_pp (sconst 0) 2 1 0 0 1
     = Inr ((t_min, k_min, heat_flow_pp k_min t_min, ex_hist 1), sconst 0)"
    by (rule ex_pp_run)
  have c3: "nonincreasing (best_fit_hist (ex_hist 1)) \<and>
      np_le (fitness_pp (t_min, k_min) 1) (fitness_pp ex_ind 1)"
    using t [THEN conjunct2, THEN conjunct2, THEN conjunct1] p by (simp add: ex_hist_def)
  have one: "Suc 0 \<le> nat 1"
    by simp
  have c4: "\<forall>f\<in>set [fitness_pp ex_ind 1, fitness_pp ex_ind 1].
              np_le (fitness_pp (t_min, k_min) 1) f"
    using t [THEN conjunct2, THEN conjunct2, THEN conjunct2, THEN conjunct1, THEN mp,
        OF conjI [OF p conjI [OF ex_pp_init [of 1] conjI [OF one ex_pp_loop [of 1]]]]] .
  have e: "evaluate [[0, 3 / 2], [0, 3 / 2]] 1 = Inr [Fin (3 / 2), Fin (3 / 2)]"
    by (simp add: objective_k_zero del: objective.simps)
  have m: "[fitness_pp ex_ind 1, fitness_pp ex_ind 1]
             = map (\<lambda>ind. fitness_pp ind 1) [ex_ind, ex_ind]"
    by simp
  note c5 = t [THEN conjunct2, THEN conjunct2, THEN conjunct2, THEN conjunct2, THEN conjunct1,
      THEN mp, OF conjI [OF ex_generation e]]
  note c6 = t [THEN conjunct2, THEN conjunct2, THEN conjunct2, THEN conjunct2, THEN conjunct2,
      THEN mp, OF conjI [OF ex_pp_generation [of 1] m]]
  have c5': "\<exists>b. np_argmin [Fin (3 / 2), Fin (3 / 2)] = Inr b \<and>
        [Fin (3 / 2)] = [] @ [[Fin (3 / 2), Fin (3 / 2)] ! b] \<and>
        [[0, 3 / 2], [0, 1 :: real]] ! 0 = [[0, 3 / 2], [0, 3 / 2]] ! b \<and>
        [Fin (3 / 2), Fin 1] ! 0 = [Fin (3 / 2), Fin (3 / 2)] ! b"
    using c5 by simp
  have c6': "\<exists>b. np_argmin [fitness_pp ex_ind 1, fitness_pp ex_ind 1] = Inr b \<and>
        best_fit_hist (ex_hist 1) = [] @ [[fitness_pp ex_ind 1, fitness_pp ex_ind 1] ! b] \<and>
        [ex_ind, ex_ind] ! 0 = [ex_ind, ex_ind] ! b \<and>
        [fitness_pp ex_ind 1, fitness_pp ex_ind 1] ! 0
          = [fitness_pp ex_ind 1, fitness_pp ex_ind 1] ! b"
    using c6 by simp
  show ?thesis
    apply (intro conjI)
               apply (rule r)
              apply (rule c1 [THEN conjunct1])
             apply (rule c1 [THEN conjunct2, THEN conjunct1])
            apply (rule c1 [THEN conjunct2, THEN conjunct2])
           apply (rule ex_loop)
          apply (rule c2)
         apply (rule p)
        apply (rule c3 [THEN conjunct1])
       apply (rule c3 [THEN conjunct2])
      apply (rule ex_pp_loop)
     apply (rule c5')
    apply (rule c6')
    done
qed

subsection \<open>The history\<close>

text \<open>
  The history \<open>h\<close> is the history \<open>h0\<close> with \<open>n\<close> more entries at the end of each of its
  lists.
\<close>

definition extends_cil :: "nat \<Rightarrow> history_cil \<Rightarrow> history_cil \<Rightarrow> bool" where
  "extends_cil n h0 h \<longleftrightarrow>
     (\<exists>bs ws as ts qs.
        length bs = n \<and> length ws = n \<and> length as = n \<and> length ts = n \<and> length qs = n \<and>
        best_hist h = best_hist h0 @ bs \<and> worst_hist h = worst_hist h0 @ ws \<and>
        avg_hist h = avg_hist h0 @ as \<and> best_t_hist h = best_t_hist h0 @ ts \<and>
        best_Q_hist h = best_Q_hist h0 @ qs)"

definition extends_pp :: "nat \<Rightarrow> history_pp \<Rightarrow> history_pp \<Rightarrow> bool" where
  "extends_pp n h0 h \<longleftrightarrow>
     (\<exists>ts ks qs bs ms ws.
        length ts = n \<and> length ks = n \<and> length qs = n \<and> length bs = n \<and> length ms = n \<and>
        length ws = n \<and>
        t_hist h = t_hist h0 @ ts \<and> k_hist h = k_hist h0 @ ks \<and> Q_hist h = Q_hist h0 @ qs \<and>
        best_fit_hist h = best_fit_hist h0 @ bs \<and> mean_fit_hist h = mean_fit_hist h0 @ ms \<and>
        worst_fit_hist h = worst_fit_hist h0 @ ws)"

lemma extends_cil_refl: "extends_cil 0 h h"
  by (simp add: extends_cil_def)

lemma extends_cil_trans:
  assumes "extends_cil a h0 h1" "extends_cil b h1 h2"
  shows "extends_cil (a + b) h0 h2"
proof -
  from assms(1) obtain bs ws as ts qs where
    1: "length bs = a" "length ws = a" "length as = a" "length ts = a" "length qs = a"
      "best_hist h1 = best_hist h0 @ bs" "worst_hist h1 = worst_hist h0 @ ws"
      "avg_hist h1 = avg_hist h0 @ as" "best_t_hist h1 = best_t_hist h0 @ ts"
      "best_Q_hist h1 = best_Q_hist h0 @ qs"
    unfolding extends_cil_def by blast
  from assms(2) obtain bs' ws' as' ts' qs' where
    2: "length bs' = b" "length ws' = b" "length as' = b" "length ts' = b" "length qs' = b"
      "best_hist h2 = best_hist h1 @ bs'" "worst_hist h2 = worst_hist h1 @ ws'"
      "avg_hist h2 = avg_hist h1 @ as'" "best_t_hist h2 = best_t_hist h1 @ ts'"
      "best_Q_hist h2 = best_Q_hist h1 @ qs'"
    unfolding extends_cil_def by blast
  show ?thesis
    unfolding extends_cil_def
    apply (rule exI [of _ "bs @ bs'"], rule exI [of _ "ws @ ws'"], rule exI [of _ "as @ as'"],
        rule exI [of _ "ts @ ts'"], rule exI [of _ "qs @ qs'"])
    using 1 2 apply simp
    done
qed

lemma extends_pp_refl: "extends_pp 0 h h"
  by (simp add: extends_pp_def)

lemma extends_pp_trans:
  assumes "extends_pp a h0 h1" "extends_pp b h1 h2"
  shows "extends_pp (a + b) h0 h2"
proof -
  from assms(1) obtain ts ks qs bs ms ws where
    1: "length ts = a" "length ks = a" "length qs = a" "length bs = a" "length ms = a"
      "length ws = a"
      "t_hist h1 = t_hist h0 @ ts" "k_hist h1 = k_hist h0 @ ks" "Q_hist h1 = Q_hist h0 @ qs"
      "best_fit_hist h1 = best_fit_hist h0 @ bs" "mean_fit_hist h1 = mean_fit_hist h0 @ ms"
      "worst_fit_hist h1 = worst_fit_hist h0 @ ws"
    unfolding extends_pp_def by blast
  from assms(2) obtain ts' ks' qs' bs' ms' ws' where
    2: "length ts' = b" "length ks' = b" "length qs' = b" "length bs' = b" "length ms' = b"
      "length ws' = b"
      "t_hist h2 = t_hist h1 @ ts'" "k_hist h2 = k_hist h1 @ ks'" "Q_hist h2 = Q_hist h1 @ qs'"
      "best_fit_hist h2 = best_fit_hist h1 @ bs'" "mean_fit_hist h2 = mean_fit_hist h1 @ ms'"
      "worst_fit_hist h2 = worst_fit_hist h1 @ ws'"
    unfolding extends_pp_def by blast
  show ?thesis
    unfolding extends_pp_def
    apply (rule exI [of _ "ts @ ts'"], rule exI [of _ "ks @ ks'"], rule exI [of _ "qs @ qs'"],
        rule exI [of _ "bs @ bs'"], rule exI [of _ "ms @ ms'"], rule exI [of _ "ws @ ws'"])
    using 1 2 apply simp
    done
qed

text \<open>One generation appends one entry to each list: the statistics of its population.\<close>

lemma generation_cil_entry:
  assumes "generation_cil bounds pop_size cr mr ms pf (population, fitness, h, g)
             = Inr (population', fitness', h', g')"
  shows "\<exists>b worst. np_argmin fitness = Inr b \<and> np_max fitness = Inr worst \<and>
           best_hist h' = best_hist h @ [fitness ! b] \<and>
           worst_hist h' = worst_hist h @ [worst] \<and>
           avg_hist h' = avg_hist h @ [np_mean fitness] \<and>
           best_t_hist h' = best_t_hist h @ [population ! b ! 1] \<and>
           best_Q_hist h' = best_Q_hist h
             @ [heat_flow_cil (population ! b ! 0) (population ! b ! 1)]"
proof -
  from assms obtain b worst where
    "np_argmin fitness = Inr b" "np_max fitness = Inr worst"
    "h' = \<lparr>best_hist = best_hist h @ [fitness ! b],
           worst_hist = worst_hist h @ [worst],
           avg_hist = avg_hist h @ [np_mean fitness],
           best_t_hist = best_t_hist h @ [population ! b ! 1],
           best_Q_hist = best_Q_hist h
             @ [heat_flow_cil (population ! b ! 0) (population ! b ! 1)]\<rparr>"
    by (rule generation_cil_elim)
  then show ?thesis
    by simp
qed

lemma generation_cil_extends:
  assumes "generation_cil bounds pop_size cr mr ms pf (population, fitness, h, g)
             = Inr (population', fitness', h', g')"
  shows "extends_cil 1 h h'"
proof -
  from generation_cil_entry [OF assms] obtain b worst where
    f: "best_hist h' = best_hist h @ [fitness ! b]"
    "worst_hist h' = worst_hist h @ [worst]"
    "avg_hist h' = avg_hist h @ [np_mean fitness]"
    "best_t_hist h' = best_t_hist h @ [population ! b ! 1]"
    "best_Q_hist h' = best_Q_hist h
             @ [heat_flow_cil (population ! b ! 0) (population ! b ! 1)]"
    by blast
  show ?thesis
    unfolding extends_cil_def
    apply (rule exI [of _ "[fitness ! b]"], rule exI [of _ "[worst]"],
        rule exI [of _ "[np_mean fitness]"], rule exI [of _ "[population ! b ! 1]"],
        rule exI [of _ "[heat_flow_cil (population ! b ! 0) (population ! b ! 1)]"])
    using f apply simp
    done
qed

lemma ga_loop_cil_extends:
  "ga_loop_cil bounds pop_size cr mr ms pf n (population, fitness, h, g)
     = Inr (population', fitness', h', g') \<Longrightarrow> extends_cil n h h'"
proof (induction n arbitrary: population fitness h g)
  case 0
  then show ?case by (simp add: extends_cil_refl)
next
  case (Suc n)
  from Suc.prems obtain p1 f1 h1 g1 where
    s: "generation_cil bounds pop_size cr mr ms pf (population, fitness, h, g)
          = Inr (p1, f1, h1, g1)"
    and r: "ga_loop_cil bounds pop_size cr mr ms pf n (p1, f1, h1, g1)
          = Inr (population', fitness', h', g')"
    by (auto split: sum.splits)
  show ?case
    using extends_cil_trans [OF generation_cil_extends [OF s] Suc.IH [OF r]] by simp
qed

lemma generation_pp_entry:
  assumes "generation_pp pop_size pc pm pf (pop, fitnesses, h, g)
             = Inr (pop', fitnesses', h', g')"
  shows "\<exists>b w. np_argmin fitnesses = Inr b \<and> np_argmax fitnesses = Inr w \<and>
           t_hist h' = t_hist h @ [fst (pop ! b)] \<and>
           k_hist h' = k_hist h @ [snd (pop ! b)] \<and>
           Q_hist h' = Q_hist h @ [heat_flow_pp (snd (pop ! b)) (fst (pop ! b))] \<and>
           best_fit_hist h' = best_fit_hist h @ [fitnesses ! b] \<and>
           mean_fit_hist h' = mean_fit_hist h @ [np_mean fitnesses] \<and>
           worst_fit_hist h' = worst_fit_hist h @ [fitnesses ! w]"
proof -
  from assms obtain b w where
    "np_argmin fitnesses = Inr b" "np_argmax fitnesses = Inr w"
    "h' = \<lparr>t_hist = t_hist h @ [fst (pop ! b)],
           k_hist = k_hist h @ [snd (pop ! b)],
           Q_hist = Q_hist h @ [heat_flow_pp (snd (pop ! b)) (fst (pop ! b))],
           best_fit_hist = best_fit_hist h @ [fitnesses ! b],
           mean_fit_hist = mean_fit_hist h @ [np_mean fitnesses],
           worst_fit_hist = worst_fit_hist h @ [fitnesses ! w]\<rparr>"
    by (rule generation_pp_elim)
  then show ?thesis
    by simp
qed

lemma generation_pp_extends:
  assumes "generation_pp pop_size pc pm pf (pop, fitnesses, h, g)
             = Inr (pop', fitnesses', h', g')"
  shows "extends_pp 1 h h'"
proof -
  from generation_pp_entry [OF assms] obtain b w where
    f: "t_hist h' = t_hist h @ [fst (pop ! b)]"
    "k_hist h' = k_hist h @ [snd (pop ! b)]"
    "Q_hist h' = Q_hist h @ [heat_flow_pp (snd (pop ! b)) (fst (pop ! b))]"
    "best_fit_hist h' = best_fit_hist h @ [fitnesses ! b]"
    "mean_fit_hist h' = mean_fit_hist h @ [np_mean fitnesses]"
    "worst_fit_hist h' = worst_fit_hist h @ [fitnesses ! w]"
    by blast
  show ?thesis
    unfolding extends_pp_def
    apply (rule exI [of _ "[fst (pop ! b)]"], rule exI [of _ "[snd (pop ! b)]"],
        rule exI [of _ "[heat_flow_pp (snd (pop ! b)) (fst (pop ! b))]"],
        rule exI [of _ "[fitnesses ! b]"], rule exI [of _ "[np_mean fitnesses]"],
        rule exI [of _ "[fitnesses ! w]"])
    using f apply simp
    done
qed

lemma ga_loop_pp_extends:
  "ga_loop_pp pop_size pc pm pf n (pop, fitnesses, h, g) = Inr (pop', fitnesses', h', g')
   \<Longrightarrow> extends_pp n h h'"
proof (induction n arbitrary: pop fitnesses h g)
  case 0
  then show ?case by (simp add: extends_pp_refl)
next
  case (Suc n)
  from Suc.prems obtain p1 f1 h1 g1 where
    s: "generation_pp pop_size pc pm pf (pop, fitnesses, h, g) = Inr (p1, f1, h1, g1)"
    and r: "ga_loop_pp pop_size pc pm pf n (p1, f1, h1, g1) = Inr (pop', fitnesses', h', g')"
    by (auto split: sum.splits)
  show ?case
    using extends_pp_trans [OF generation_pp_extends [OF s] Suc.IH [OF r]] by simp
qed

lemma nth_entry: "length xs = n \<Longrightarrow> (xs @ [x] @ ys) ! n = x"
  by (simp add: nth_append)

text \<open>
  The history after \<open>n\<close> generations, followed by generation \<open>n + 1\<close> and \<open>k\<close> more: entry
  \<open>n\<close> of the final history holds the statistics of the population after \<open>n\<close>
  generations.
\<close>

lemma ga_loop_cil_entry:
  assumes a: "ga_loop_cil bounds pop_size cr mr ms pf n (p0, f0, h0, g0)
                = Inr (population, fitness, h, g)"
    and b: "ga_loop_cil bounds pop_size cr mr ms pf (n + Suc k) (p0, f0, h0, g0)
                = Inr (population', fitness', h', g')"
    and e: "best_hist h0 = []" "worst_hist h0 = []" "avg_hist h0 = []" "best_t_hist h0 = []"
      "best_Q_hist h0 = []"
  shows "\<exists>b worst. np_argmin fitness = Inr b \<and> np_max fitness = Inr worst \<and>
           best_hist h' ! n = fitness ! b \<and>
           worst_hist h' ! n = worst \<and>
           avg_hist h' ! n = np_mean fitness \<and>
           best_t_hist h' ! n = population ! b ! 1 \<and>
           best_Q_hist h' ! n = heat_flow_cil (population ! b ! 0) (population ! b ! 1)"
proof -
  have r: "ga_loop_cil bounds pop_size cr mr ms pf (Suc k) (population, fitness, h, g)
             = Inr (population', fitness', h', g')"
    using b unfolding ga_loop_cil_add a by simp
  then obtain p1 f1 h1 g1 where
    s: "generation_cil bounds pop_size cr mr ms pf (population, fitness, h, g)
          = Inr (p1, f1, h1, g1)"
    and t: "ga_loop_cil bounds pop_size cr mr ms pf k (p1, f1, h1, g1)
          = Inr (population', fitness', h', g')"
    by (auto split: sum.splits)
  from ga_loop_cil_extends [OF a] e obtain
    l: "length (best_hist h) = n" "length (worst_hist h) = n" "length (avg_hist h) = n"
      "length (best_t_hist h) = n" "length (best_Q_hist h) = n"
    unfolding extends_cil_def by auto
  from generation_cil_entry [OF s] obtain b worst where
    st: "np_argmin fitness = Inr b" "np_max fitness = Inr worst"
      "best_hist h1 = best_hist h @ [fitness ! b]"
      "worst_hist h1 = worst_hist h @ [worst]"
      "avg_hist h1 = avg_hist h @ [np_mean fitness]"
      "best_t_hist h1 = best_t_hist h @ [population ! b ! 1]"
      "best_Q_hist h1 = best_Q_hist h
             @ [heat_flow_cil (population ! b ! 0) (population ! b ! 1)]"
    by blast
  from ga_loop_cil_extends [OF t] obtain bs ws as ts qs where
    x: "best_hist h' = best_hist h1 @ bs" "worst_hist h' = worst_hist h1 @ ws"
      "avg_hist h' = avg_hist h1 @ as" "best_t_hist h' = best_t_hist h1 @ ts"
      "best_Q_hist h' = best_Q_hist h1 @ qs"
    unfolding extends_cil_def by blast
  have "best_hist h' ! n = fitness ! b"
    unfolding x st using nth_entry [OF l(1)] by simp
  moreover have "worst_hist h' ! n = worst"
    unfolding x st using nth_entry [OF l(2)] by simp
  moreover have "avg_hist h' ! n = np_mean fitness"
    unfolding x st using nth_entry [OF l(3)] by simp
  moreover have "best_t_hist h' ! n = population ! b ! 1"
    unfolding x st using nth_entry [OF l(4)] by simp
  moreover have "best_Q_hist h' ! n = heat_flow_cil (population ! b ! 0) (population ! b ! 1)"
    unfolding x st using nth_entry [OF l(5)] by simp
  ultimately show ?thesis
    using st(1,2) by blast
qed

lemma ga_loop_pp_entry:
  assumes a: "ga_loop_pp pop_size pc pm pf n (p0, f0, h0, g0) = Inr (pop, fitnesses, h, g)"
    and b: "ga_loop_pp pop_size pc pm pf (n + Suc k) (p0, f0, h0, g0)
                = Inr (pop', fitnesses', h', g')"
    and e: "t_hist h0 = []" "k_hist h0 = []" "Q_hist h0 = []" "best_fit_hist h0 = []"
      "mean_fit_hist h0 = []" "worst_fit_hist h0 = []"
  shows "\<exists>b w. np_argmin fitnesses = Inr b \<and> np_argmax fitnesses = Inr w \<and>
           t_hist h' ! n = fst (pop ! b) \<and>
           k_hist h' ! n = snd (pop ! b) \<and>
           Q_hist h' ! n = heat_flow_pp (snd (pop ! b)) (fst (pop ! b)) \<and>
           best_fit_hist h' ! n = fitnesses ! b \<and>
           mean_fit_hist h' ! n = np_mean fitnesses \<and>
           worst_fit_hist h' ! n = fitnesses ! w"
proof -
  have r: "ga_loop_pp pop_size pc pm pf (Suc k) (pop, fitnesses, h, g)
             = Inr (pop', fitnesses', h', g')"
    using b unfolding ga_loop_pp_add a by simp
  then obtain p1 f1 h1 g1 where
    s: "generation_pp pop_size pc pm pf (pop, fitnesses, h, g) = Inr (p1, f1, h1, g1)"
    and t: "ga_loop_pp pop_size pc pm pf k (p1, f1, h1, g1) = Inr (pop', fitnesses', h', g')"
    by (auto split: sum.splits)
  from ga_loop_pp_extends [OF a] e obtain
    l: "length (t_hist h) = n" "length (k_hist h) = n" "length (Q_hist h) = n"
      "length (best_fit_hist h) = n" "length (mean_fit_hist h) = n"
      "length (worst_fit_hist h) = n"
    unfolding extends_pp_def by auto
  from generation_pp_entry [OF s] obtain b w where
    st: "np_argmin fitnesses = Inr b" "np_argmax fitnesses = Inr w"
      "t_hist h1 = t_hist h @ [fst (pop ! b)]"
      "k_hist h1 = k_hist h @ [snd (pop ! b)]"
      "Q_hist h1 = Q_hist h @ [heat_flow_pp (snd (pop ! b)) (fst (pop ! b))]"
      "best_fit_hist h1 = best_fit_hist h @ [fitnesses ! b]"
      "mean_fit_hist h1 = mean_fit_hist h @ [np_mean fitnesses]"
      "worst_fit_hist h1 = worst_fit_hist h @ [fitnesses ! w]"
    by blast
  from ga_loop_pp_extends [OF t] obtain ts ks qs bs ms ws where
    x: "t_hist h' = t_hist h1 @ ts" "k_hist h' = k_hist h1 @ ks" "Q_hist h' = Q_hist h1 @ qs"
      "best_fit_hist h' = best_fit_hist h1 @ bs" "mean_fit_hist h' = mean_fit_hist h1 @ ms"
      "worst_fit_hist h' = worst_fit_hist h1 @ ws"
    unfolding extends_pp_def by blast
  have "t_hist h' ! n = fst (pop ! b)"
    unfolding x st using nth_entry [OF l(1)] by simp
  moreover have "k_hist h' ! n = snd (pop ! b)"
    unfolding x st using nth_entry [OF l(2)] by simp
  moreover have "Q_hist h' ! n = heat_flow_pp (snd (pop ! b)) (fst (pop ! b))"
    unfolding x st using nth_entry [OF l(3)] by simp
  moreover have "best_fit_hist h' ! n = fitnesses ! b"
    unfolding x st using nth_entry [OF l(4)] by simp
  moreover have "mean_fit_hist h' ! n = np_mean fitnesses"
    unfolding x st using nth_entry [OF l(5)] by simp
  moreover have "worst_fit_hist h' ! n = fitnesses ! w"
    unfolding x st using nth_entry [OF l(6)] by simp
  ultimately show ?thesis
    using st(1,2) by blast
qed

lemma run_GA_cil_lengths:
  assumes "run_GA_cil mt g0 bounds pop_size generations cr mr ms pf seed = Inr (res, g)"
  shows "length (best_hist res) = nat generations \<and> length (worst_hist res) = nat generations \<and>
         length (avg_hist res) = nat generations \<and> length (best_t_hist res) = nat generations \<and>
         length (best_Q_hist res) = nat generations"
proof -
  from assms obtain p0 f0 h0 g1 population fitness h b where
    i: "init_cil mt bounds pop_size pf seed = Inr (p0, f0, h0, g1)"
    and l: "ga_loop_cil bounds pop_size cr mr ms pf (nat generations) (p0, f0, h0, g1)
       = Inr (population, fitness, h, g)"
    and r: "res = \<lparr>best_hist = best_hist h, worst_hist = worst_hist h, avg_hist = avg_hist h,
            best_t_hist = best_t_hist h, best_Q_hist = best_Q_hist h,
            best_individual = population ! b, best_fitness = fitness ! b\<rparr>"
    by (rule run_GA_cil_elim)
  show ?thesis
    using ga_loop_cil_extends [OF l] init_cil_elim(2) [OF i] unfolding r extends_cil_def
    by auto
qed

lemma run_GA_cil_entry:
  assumes run: "run_GA_cil mt g0 bounds pop_size generations cr mr ms pf seed = Inr (res, g)"
    and i: "init_cil mt bounds pop_size pf seed = Inr s0"
    and n: "n < nat generations"
    and a: "ga_loop_cil bounds pop_size cr mr ms pf n s0 = Inr (population, fitness, h, gn)"
  shows "\<exists>b worst. np_argmin fitness = Inr b \<and> np_max fitness = Inr worst \<and>
           best_hist res ! n = fitness ! b \<and>
           worst_hist res ! n = worst \<and>
           avg_hist res ! n = np_mean fitness \<and>
           best_t_hist res ! n = population ! b ! 1 \<and>
           best_Q_hist res ! n = heat_flow_cil (population ! b ! 0) (population ! b ! 1)"
proof -
  from run obtain p0 f0 h0 g1 population' fitness' h' b' where
    i': "init_cil mt bounds pop_size pf seed = Inr (p0, f0, h0, g1)"
    and l: "ga_loop_cil bounds pop_size cr mr ms pf (nat generations) (p0, f0, h0, g1)
       = Inr (population', fitness', h', g)"
    and r: "res = \<lparr>best_hist = best_hist h', worst_hist = worst_hist h',
            avg_hist = avg_hist h',
            best_t_hist = best_t_hist h', best_Q_hist = best_Q_hist h',
            best_individual = population' ! b', best_fitness = fitness' ! b'\<rparr>"
    by (rule run_GA_cil_elim)
  have s0: "s0 = (p0, f0, h0, g1)"
    using i i' by simp
  have e: "h0 = \<lparr>best_hist = [], worst_hist = [], avg_hist = [], best_t_hist = [],
               best_Q_hist = []\<rparr>"
    using init_cil_elim(2) [OF i'] .
  have split: "nat generations = n + Suc (nat generations - n - 1)"
    using n by simp
  have l': "ga_loop_cil bounds pop_size cr mr ms pf (n + Suc (nat generations - n - 1))
              (p0, f0, h0, g1) = Inr (population', fitness', h', g)"
    using l split by simp
  show ?thesis
    using ga_loop_cil_entry [OF a [unfolded s0] l'] unfolding r e by simp
qed

lemma run_GA_cil_final:
  assumes run: "run_GA_cil mt g0 bounds pop_size generations cr mr ms pf seed = Inr (res, g)"
    and i: "init_cil mt bounds pop_size pf seed = Inr s0"
    and l: "ga_loop_cil bounds pop_size cr mr ms pf (nat generations) s0
              = Inr (population, fitness, h, g')"
  shows "\<exists>b. np_argmin fitness = Inr b \<and> best_individual res = population ! b \<and>
           best_fitness res = fitness ! b \<and> best_hist res = best_hist h \<and>
           worst_hist res = worst_hist h \<and> avg_hist res = avg_hist h \<and>
           best_t_hist res = best_t_hist h \<and> best_Q_hist res = best_Q_hist h"
proof -
  from run obtain p0 f0 h0 g1 population' fitness' h' b' where
    i': "init_cil mt bounds pop_size pf seed = Inr (p0, f0, h0, g1)"
    and l': "ga_loop_cil bounds pop_size cr mr ms pf (nat generations) (p0, f0, h0, g1)
       = Inr (population', fitness', h', g)"
    and a: "np_argmin fitness' = Inr b'"
    and r: "res = \<lparr>best_hist = best_hist h', worst_hist = worst_hist h',
            avg_hist = avg_hist h',
            best_t_hist = best_t_hist h', best_Q_hist = best_Q_hist h',
            best_individual = population' ! b', best_fitness = fitness' ! b'\<rparr>"
    by (rule run_GA_cil_elim)
  have "s0 = (p0, f0, h0, g1)"
    using i i' by simp
  then have "(population, fitness, h, g') = (population', fitness', h', g)"
    using l l' by simp
  then show ?thesis
    using a r by simp
qed

lemma run_GA_cil_last:
  assumes run: "run_GA_cil mt g0 bounds pop_size generations cr mr ms pf seed = Inr (res, g)"
    and pf: "pf \<noteq> 0" and n: "0 < generations"
  shows "np_le (best_fitness res) (last (best_hist res))"
proof -
  have "best_hist res \<noteq> []"
    using run_GA_cil_lengths [OF run] n by auto
  then have "last (best_hist res) \<in> set (best_hist res)"
    by simp
  then show ?thesis
    using run_GA_cil_best [OF run pf] by blast
qed

lemma run_GA_pp_lengths:
  assumes "run_GA_pp g0 pop_size generations pc pm pf = Inr ((t_best, k_best, Q_best, h), g)"
  shows "length (t_hist h) = nat generations \<and> length (k_hist h) = nat generations \<and>
         length (Q_hist h) = nat generations \<and> length (best_fit_hist h) = nat generations \<and>
         length (mean_fit_hist h) = nat generations \<and>
         length (worst_fit_hist h) = nat generations"
proof -
  from assms obtain p0 f0 h0 g1 pop fitnesses b where
    i: "init_pp g0 pop_size pf = Inr (p0, f0, h0, g1)"
    and l: "ga_loop_pp pop_size pc pm pf (nat generations) (p0, f0, h0, g1)
       = Inr (pop, fitnesses, h, g)"
    by (rule run_GA_pp_elim)
  show ?thesis
    using ga_loop_pp_extends [OF l] init_pp_elim(2) [OF i] unfolding extends_pp_def
    by auto
qed

lemma run_GA_pp_entry:
  assumes run: "run_GA_pp g0 pop_size generations pc pm pf
                  = Inr ((t_best, k_best, Q_best, h'), g)"
    and i: "init_pp g0 pop_size pf = Inr s0"
    and n: "n < nat generations"
    and a: "ga_loop_pp pop_size pc pm pf n s0 = Inr (pop, fitnesses, h, gn)"
  shows "\<exists>b w. np_argmin fitnesses = Inr b \<and> np_argmax fitnesses = Inr w \<and>
           t_hist h' ! n = fst (pop ! b) \<and>
           k_hist h' ! n = snd (pop ! b) \<and>
           Q_hist h' ! n = heat_flow_pp (snd (pop ! b)) (fst (pop ! b)) \<and>
           best_fit_hist h' ! n = fitnesses ! b \<and>
           mean_fit_hist h' ! n = np_mean fitnesses \<and>
           worst_fit_hist h' ! n = fitnesses ! w"
proof -
  from run obtain p0 f0 h0 g1 pop' fitnesses' b' where
    i': "init_pp g0 pop_size pf = Inr (p0, f0, h0, g1)"
    and l: "ga_loop_pp pop_size pc pm pf (nat generations) (p0, f0, h0, g1)
       = Inr (pop', fitnesses', h', g)"
    by (rule run_GA_pp_elim)
  have s0: "s0 = (p0, f0, h0, g1)"
    using i i' by simp
  have e: "h0 = \<lparr>t_hist = [], k_hist = [], Q_hist = [], best_fit_hist = [],
               mean_fit_hist = [], worst_fit_hist = []\<rparr>"
    using init_pp_elim(2) [OF i'] .
  have split: "nat generations = n + Suc (nat generations - n - 1)"
    using n by simp
  have l': "ga_loop_pp pop_size pc pm pf (n + Suc (nat generations - n - 1))
              (p0, f0, h0, g1) = Inr (pop', fitnesses', h', g)"
    using l split by simp
  show ?thesis
    using ga_loop_pp_entry [OF a [unfolded s0] l'] unfolding e by simp
qed

lemma run_GA_pp_final:
  assumes run: "run_GA_pp g0 pop_size generations pc pm pf
                  = Inr ((t_best, k_best, Q_best, h'), g)"
    and i: "init_pp g0 pop_size pf = Inr s0"
    and l: "ga_loop_pp pop_size pc pm pf (nat generations) s0 = Inr (pop, fitnesses, h, g')"
  shows "\<exists>b. np_argmin fitnesses = Inr b \<and> (t_best, k_best) = pop ! b \<and>
           Q_best = heat_flow_pp k_best t_best \<and> h' = h"
proof -
  from run obtain p0 f0 h0 g1 pop' fitnesses' b' where
    i': "init_pp g0 pop_size pf = Inr (p0, f0, h0, g1)"
    and l': "ga_loop_pp pop_size pc pm pf (nat generations) (p0, f0, h0, g1)
       = Inr (pop', fitnesses', h', g)"
    and a: "np_argmin fitnesses' = Inr b'" "pop' ! b' = (t_best, k_best)"
      "Q_best = heat_flow_pp k_best t_best"
    by (rule run_GA_pp_elim)
  have "s0 = (p0, f0, h0, g1)"
    using i i' by simp
  then have "(pop, fitnesses, h, g') = (pop', fitnesses', h', g)"
    using l l' by simp
  then show ?thesis
    using a by auto
qed

lemma run_GA_pp_last:
  assumes run: "run_GA_pp g0 pop_size generations pc pm pf
                  = Inr ((t_best, k_best, Q_best, h), g)"
    and n: "0 < generations"
  shows "np_le (fitness_pp (t_best, k_best) pf) (last (best_fit_hist h))"
proof -
  have "best_fit_hist h \<noteq> []"
    using run_GA_pp_lengths [OF run] n by auto
  then have "last (best_fit_hist h) \<in> set (best_fit_hist h)"
    by simp
  then show ?thesis
    using run_GA_pp_best [OF run] by blast
qed

text \<open>
  Claim C10. In a run of \<open>generations\<close> generations that returns, each list of the
  history has exactly \<open>generations\<close> entries (none when \<open>generations \<le> 0\<close>), and entry
  \<open>n\<close> holds the statistics of the population as it stands after \<open>n\<close> replacements,
  that is before replacement \<open>n + 1\<close>: its least fitness, its greatest fitness, its
  mean fitness, and the genes and the heat flow of its best individual. What is returned
  as best is the individual of least fitness of the population that the last
  replacement produced, of which the history holds no entry. So, for at least one
  generation (and, in \<^verbatim>\<open>cilindro_ga.py\<close>, a penalty factor other than 0), the best
  fitness returned is \<^verbatim>\<open><=\<close> the last best-fitness entry of the history; the run of
  \<^verbatim>\<open>cilindro_ga.py\<close> of the previous section returns the best fitness 1 after the
  single entry \<open>3/2\<close>, so the two may differ. \<^verbatim>\<open>placa_plana_ga.py\<close> returns the best
  individual and its heat flow and not its fitness.
\<close>

theorem history_entries:
  "(run_GA_cil mt g0 bounds pop_size generations crossover_rate mutation_rate mutation_scale
      penalty_factor seed = Inr (res, g)
    \<longrightarrow> length (best_hist res) = nat generations \<and> length (worst_hist res) = nat generations \<and>
        length (avg_hist res) = nat generations \<and> length (best_t_hist res) = nat generations \<and>
        length (best_Q_hist res) = nat generations) \<and>
   (run_GA_cil mt g0 bounds pop_size generations crossover_rate mutation_rate mutation_scale
      penalty_factor seed = Inr (res, g) \<and>
    init_cil mt bounds pop_size penalty_factor seed = Inr s0 \<and> n < nat generations \<and>
    ga_loop_cil bounds pop_size crossover_rate mutation_rate mutation_scale penalty_factor n s0
      = Inr (population, fitness, h, gn)
    \<longrightarrow> (\<exists>b worst. np_argmin fitness = Inr b \<and> np_max fitness = Inr worst \<and>
           best_hist res ! n = fitness ! b \<and>
           worst_hist res ! n = worst \<and>
           avg_hist res ! n = np_mean fitness \<and>
           best_t_hist res ! n = population ! b ! 1 \<and>
           best_Q_hist res ! n = heat_flow_cil (population ! b ! 0) (population ! b ! 1))) \<and>
   (run_GA_cil mt g0 bounds pop_size generations crossover_rate mutation_rate mutation_scale
      penalty_factor seed = Inr (res, g) \<and>
    init_cil mt bounds pop_size penalty_factor seed = Inr s0 \<and>
    ga_loop_cil bounds pop_size crossover_rate mutation_rate mutation_scale penalty_factor
      (nat generations) s0 = Inr (population', fitness', h', g')
    \<longrightarrow> (\<exists>b. np_argmin fitness' = Inr b \<and> best_individual res = population' ! b \<and>
           best_fitness res = fitness' ! b \<and> best_hist res = best_hist h' \<and>
           worst_hist res = worst_hist h' \<and> avg_hist res = avg_hist h' \<and>
           best_t_hist res = best_t_hist h' \<and> best_Q_hist res = best_Q_hist h')) \<and>
   (run_GA_cil mt g0 bounds pop_size generations crossover_rate mutation_rate mutation_scale
      penalty_factor seed = Inr (res, g) \<and> penalty_factor \<noteq> 0 \<and> 0 < generations
    \<longrightarrow> np_le (best_fitness res) (last (best_hist res))) \<and>
   (\<exists>res g. run_GA_cil (\<lambda>seed. ex_rng) ex_rng [(0, 0), (1, 2)] 2 1 0 1 1 1 0 = Inr (res, g) \<and>
      best_fitness res \<noteq> last (best_hist res)) \<and>
   (run_GA_pp gp0 pop_size generations pc pm penalty_factor
      = Inr ((t_best, k_best, Q_best, hp), gp)
    \<longrightarrow> length (t_hist hp) = nat generations \<and> length (k_hist hp) = nat generations \<and>
        length (Q_hist hp) = nat generations \<and> length (best_fit_hist hp) = nat generations \<and>
        length (mean_fit_hist hp) = nat generations \<and>
        length (worst_fit_hist hp) = nat generations) \<and>
   (run_GA_pp gp0 pop_size generations pc pm penalty_factor
      = Inr ((t_best, k_best, Q_best, hp), gp) \<and>
    init_pp gp0 pop_size penalty_factor = Inr sp0 \<and> n < nat generations \<and>
    ga_loop_pp pop_size pc pm penalty_factor n sp0 = Inr (pop, fitnesses, hn, gpn)
    \<longrightarrow> (\<exists>b w. np_argmin fitnesses = Inr b \<and> np_argmax fitnesses = Inr w \<and>
           t_hist hp ! n = fst (pop ! b) \<and>
           k_hist hp ! n = snd (pop ! b) \<and>
           Q_hist hp ! n = heat_flow_pp (snd (pop ! b)) (fst (pop ! b)) \<and>
           best_fit_hist hp ! n = fitnesses ! b \<and>
           mean_fit_hist hp ! n = np_mean fitnesses \<and>
           worst_fit_hist hp ! n = fitnesses ! w)) \<and>
   (run_GA_pp gp0 pop_size generations pc pm penalty_factor
      = Inr ((t_best, k_best, Q_best, hp), gp) \<and>
    init_pp gp0 pop_size penalty_factor = Inr sp0 \<and>
    ga_loop_pp pop_size pc pm penalty_factor (nat generations) sp0
      = Inr (pop', fitnesses', hp', gp')
    \<longrightarrow> (\<exists>b. np_argmin fitnesses' = Inr b \<and> (t_best, k_best) = pop' ! b \<and>
           Q_best = heat_flow_pp k_best t_best \<and> hp = hp')) \<and>
   (run_GA_pp gp0 pop_size generations pc pm penalty_factor
      = Inr ((t_best, k_best, Q_best, hp), gp) \<and> 0 < generations
    \<longrightarrow> np_le (fitness_pp (t_best, k_best) penalty_factor) (last (best_fit_hist hp)))"
proof -
  have differ: "\<exists>res g. run_GA_cil (\<lambda>seed. ex_rng) ex_rng [(0, 0), (1, 2)] 2 1 0 1 1 1 0
        = Inr (res, g) \<and> best_fitness res \<noteq> last (best_hist res)"
    unfolding ex_run by simp
  show ?thesis
    apply (intro conjI)
            apply (rule impI, erule run_GA_cil_lengths)
           apply (rule impI, (erule conjE)+, erule (3) run_GA_cil_entry)
          apply (rule impI, (erule conjE)+, erule (2) run_GA_cil_final)
         apply (rule impI, (erule conjE)+, erule (2) run_GA_cil_last)
        apply (rule differ)
       apply (rule impI, erule run_GA_pp_lengths)
      apply (rule impI, (erule conjE)+, erule (3) run_GA_pp_entry)
     apply (rule impI, (erule conjE)+, erule (2) run_GA_pp_final)
    apply (rule impI, (erule conjE)+, erule (1) run_GA_pp_last)
    done
qed

definition ex_res :: result_cil where
  "ex_res = \<lparr>best_hist = [Fin (3 / 2)], worst_hist = [Fin (3 / 2)], avg_hist = [Fin (3 / 2)],
             best_t_hist = [3 / 2], best_Q_hist = [Fin 0],
             best_individual = [0, 1], best_fitness = Fin 1\<rparr>"

definition ex_state0 :: "real list list \<times> npfloat list \<times> history_cil \<times> rng" where
  "ex_state0 = ([[0, 3 / 2], [0, 3 / 2]], [Fin (3 / 2), Fin (3 / 2)],
            \<lparr>best_hist = [], worst_hist = [], avg_hist = [], best_t_hist = [],
             best_Q_hist = []\<rparr>, ex_rng)"

definition ex_pp_state0 :: "real \<Rightarrow> (real \<times> real) list \<times> npfloat list \<times> history_pp \<times> rng" where
  "ex_pp_state0 pf = ([ex_ind, ex_ind], [fitness_pp ex_ind pf, fitness_pp ex_ind pf],
            \<lparr>t_hist = [], k_hist = [], Q_hist = [], best_fit_hist = [],
             mean_fit_hist = [], worst_fit_hist = []\<rparr>, sconst 0)"

theorem history_entries_witness:
  "run_GA_cil (\<lambda>seed. ex_rng) ex_rng [(0, 0), (1, 2)] 2 1 0 1 1 1 0 = Inr (ex_res, ex_rng) \<and>
   length (best_hist ex_res) = nat 1 \<and> length (worst_hist ex_res) = nat 1 \<and>
   length (avg_hist ex_res) = nat 1 \<and> length (best_t_hist ex_res) = nat 1 \<and>
   length (best_Q_hist ex_res) = nat 1 \<and>
   init_cil (\<lambda>seed. ex_rng) [(0, 0), (1, 2)] 2 1 0 = Inr ex_state0 \<and>
   ga_loop_cil [(0, 0), (1, 2)] 2 0 1 1 1 0 ex_state0
     = Inr ([[0, 3 / 2], [0, 3 / 2]], [Fin (3 / 2), Fin (3 / 2)],
            \<lparr>best_hist = [], worst_hist = [], avg_hist = [], best_t_hist = [],
             best_Q_hist = []\<rparr>, ex_rng) \<and>
   (\<exists>b worst. np_argmin [Fin (3 / 2), Fin (3 / 2)] = Inr b \<and>
      np_max [Fin (3 / 2), Fin (3 / 2)] = Inr worst \<and>
      best_hist ex_res ! 0 = [Fin (3 / 2), Fin (3 / 2)] ! b \<and>
      worst_hist ex_res ! 0 = worst \<and>
      avg_hist ex_res ! 0 = np_mean [Fin (3 / 2), Fin (3 / 2)] \<and>
      best_t_hist ex_res ! 0 = [[0, 3 / 2], [0, 3 / 2]] ! b ! 1 \<and>
      best_Q_hist ex_res ! 0
        = heat_flow_cil ([[0, 3 / 2], [0, 3 / 2]] ! b ! 0) ([[0, 3 / 2], [0, 3 / 2]] ! b ! 1)) \<and>
   ga_loop_cil [(0, 0), (1, 2)] 2 0 1 1 1 (nat 1) ex_state0
     = Inr ([[0, 3 / 2], [0, 1]], [Fin (3 / 2), Fin 1],
          \<lparr>best_hist = [Fin (3 / 2)], worst_hist = [Fin (3 / 2)], avg_hist = [Fin (3 / 2)],
           best_t_hist = [3 / 2], best_Q_hist = [Fin 0]\<rparr>, ex_rng) \<and>
   (\<exists>b. np_argmin [Fin (3 / 2), Fin 1] = Inr b \<and>
      best_individual ex_res = [[0, 3 / 2], [0, 1]] ! b \<and>
      best_fitness ex_res = [Fin (3 / 2), Fin 1] ! b) \<and>
   np_le (best_fitness ex_res) (last (best_hist ex_res)) \<and>
   best_fitness ex_res = Fin 1 \<and> last (best_hist ex_res) = Fin (3 / 2) \<and>
   run_GA_pp (sconst 0) 2 1 0 0 1
     = Inr ((t_min, k_min, heat_flow_pp k_min t_min, ex_hist 1), sconst 0) \<and>
   length (t_hist (ex_hist 1)) = nat 1 \<and> length (best_fit_hist (ex_hist 1)) = nat 1 \<and>
   init_pp (sconst 0) 2 1 = Inr (ex_pp_state0 1) \<and>
   ga_loop_pp 2 0 0 1 0 (ex_pp_state0 1)
     = Inr ([ex_ind, ex_ind], [fitness_pp ex_ind 1, fitness_pp ex_ind 1],
            \<lparr>t_hist = [], k_hist = [], Q_hist = [], best_fit_hist = [],
             mean_fit_hist = [], worst_fit_hist = []\<rparr>, sconst 0) \<and>
   (\<exists>b w. np_argmin [fitness_pp ex_ind 1, fitness_pp ex_ind 1] = Inr b \<and>
      np_argmax [fitness_pp ex_ind 1, fitness_pp ex_ind 1] = Inr w \<and>
      t_hist (ex_hist 1) ! 0 = fst ([ex_ind, ex_ind] ! b) \<and>
      k_hist (ex_hist 1) ! 0 = snd ([ex_ind, ex_ind] ! b) \<and>
      best_fit_hist (ex_hist 1) ! 0 = [fitness_pp ex_ind 1, fitness_pp ex_ind 1] ! b \<and>
      worst_fit_hist (ex_hist 1) ! 0 = [fitness_pp ex_ind 1, fitness_pp ex_ind 1] ! w) \<and>
   ga_loop_pp 2 0 0 1 (nat 1) (ex_pp_state0 1)
     = Inr ([ex_ind, ex_ind], [fitness_pp ex_ind 1, fitness_pp ex_ind 1], ex_hist 1,
            sconst 0) \<and>
   (\<exists>b. np_argmin [fitness_pp ex_ind 1, fitness_pp ex_ind 1] = Inr b \<and>
      (t_min, k_min) = [ex_ind, ex_ind] ! b) \<and>
   np_le (fitness_pp (t_min, k_min) 1) (last (best_fit_hist (ex_hist 1)))"
proof -
  note T = history_entries [where mt = "\<lambda>seed. ex_rng" and ?g0.0 = ex_rng
      and bounds = "[(0, 0), (1, 2)]" and pop_size = 2 and generations = 1
      and crossover_rate = 0 and mutation_rate = 1 and mutation_scale = 1
      and penalty_factor = 1 and seed = 0 and res = ex_res and g = ex_rng
      and ?s0.0 = ex_state0 and n = 0
      and population = "[[0, 3 / 2], [0, 3 / 2]]" and fitness = "[Fin (3 / 2), Fin (3 / 2)]"
      and h = "\<lparr>best_hist = [], worst_hist = [], avg_hist = [], best_t_hist = [],
                best_Q_hist = []\<rparr>"
      and gn = ex_rng
      and population' = "[[0, 3 / 2], [0, 1]]" and fitness' = "[Fin (3 / 2), Fin 1]"
      and h' = "\<lparr>best_hist = [Fin (3 / 2)], worst_hist = [Fin (3 / 2)],
                 avg_hist = [Fin (3 / 2)], best_t_hist = [3 / 2], best_Q_hist = [Fin 0]\<rparr>"
      and g' = ex_rng
      and ?gp0.0 = "sconst 0" and pc = 0 and pm = 0
      and t_best = t_min and k_best = k_min and Q_best = "heat_flow_pp k_min t_min"
      and hp = "ex_hist 1" and gp = "sconst 0" and ?sp0.0 = "ex_pp_state0 1"
      and pop = "[ex_ind, ex_ind]"
      and fitnesses = "[fitness_pp ex_ind 1, fitness_pp ex_ind 1]"
      and hn = "\<lparr>t_hist = [], k_hist = [], Q_hist = [], best_fit_hist = [],
                 mean_fit_hist = [], worst_fit_hist = []\<rparr>"
      and gpn = "sconst 0"
      and pop' = "[ex_ind, ex_ind]"
      and fitnesses' = "[fitness_pp ex_ind 1, fitness_pp ex_ind 1]"
      and hp' = "ex_hist 1" and gp' = "sconst 0"]
  have r: "run_GA_cil (\<lambda>seed. ex_rng) ex_rng [(0, 0), (1, 2)] 2 1 0 1 1 1 0
             = Inr (ex_res, ex_rng)"
    unfolding ex_res_def by (rule ex_run)
  have i: "init_cil (\<lambda>seed. ex_rng) [(0, 0), (1, 2)] 2 1 0 = Inr ex_state0"
    unfolding ex_state0_def by (rule ex_init)
  have l0: "ga_loop_cil [(0, 0), (1, 2)] 2 0 1 1 1 0 ex_state0
     = Inr ([[0, 3 / 2], [0, 3 / 2]], [Fin (3 / 2), Fin (3 / 2)],
            \<lparr>best_hist = [], worst_hist = [], avg_hist = [], best_t_hist = [],
             best_Q_hist = []\<rparr>, ex_rng)"
    by (simp add: ex_state0_def)
  have l1: "ga_loop_cil [(0, 0), (1, 2)] 2 0 1 1 1 (nat 1) ex_state0
     = Inr ([[0, 3 / 2], [0, 1]], [Fin (3 / 2), Fin 1],
          \<lparr>best_hist = [Fin (3 / 2)], worst_hist = [Fin (3 / 2)], avg_hist = [Fin (3 / 2)],
           best_t_hist = [3 / 2], best_Q_hist = [Fin 0]\<rparr>, ex_rng)"
    using ex_loop by (simp add: ex_state0_def del: ga_loop_cil.simps)
  have n: "(0::nat) < nat 1" "(1::real) \<noteq> 0" "(0::int) < 1"
    by simp_all
  have p: "run_GA_pp (sconst 0) 2 1 0 0 1
     = Inr ((t_min, k_min, heat_flow_pp k_min t_min, ex_hist 1), sconst 0)"
    by (rule ex_pp_run)
  have pi: "init_pp (sconst 0) 2 1 = Inr (ex_pp_state0 1)"
    unfolding ex_pp_state0_def by (rule ex_pp_init)
  have pl0: "ga_loop_pp 2 0 0 1 0 (ex_pp_state0 1)
     = Inr ([ex_ind, ex_ind], [fitness_pp ex_ind 1, fitness_pp ex_ind 1],
            \<lparr>t_hist = [], k_hist = [], Q_hist = [], best_fit_hist = [],
             mean_fit_hist = [], worst_fit_hist = []\<rparr>, sconst 0)"
    by (simp add: ex_pp_state0_def)
  have pl1: "ga_loop_pp 2 0 0 1 (nat 1) (ex_pp_state0 1)
     = Inr ([ex_ind, ex_ind], [fitness_pp ex_ind 1, fitness_pp ex_ind 1], ex_hist 1,
            sconst 0)"
    using ex_pp_loop [of 1] by (simp add: ex_pp_state0_def del: ga_loop_pp.simps)
  note c1 = T [THEN conjunct1, THEN mp, OF r]
  note c2 = T [THEN conjunct2, THEN conjunct1, THEN mp,
      OF conjI [OF r conjI [OF i conjI [OF n(1) l0]]]]
  note c3 = T [THEN conjunct2, THEN conjunct2, THEN conjunct1, THEN mp,
      OF conjI [OF r conjI [OF i l1]]]
  note c4 = T [THEN conjunct2, THEN conjunct2, THEN conjunct2, THEN conjunct1, THEN mp,
      OF conjI [OF r conjI [OF n(2) n(3)]]]
  note c6 = T [THEN conjunct2, THEN conjunct2, THEN conjunct2, THEN conjunct2, THEN conjunct2,
      THEN conjunct1, THEN mp, OF p]
  note c7 = T [THEN conjunct2, THEN conjunct2, THEN conjunct2, THEN conjunct2, THEN conjunct2,
      THEN conjunct2, THEN conjunct1, THEN mp, OF conjI [OF p conjI [OF pi conjI [OF n(1) pl0]]]]
  note c8 = T [THEN conjunct2, THEN conjunct2, THEN conjunct2, THEN conjunct2, THEN conjunct2,
      THEN conjunct2, THEN conjunct2, THEN conjunct1, THEN mp, OF conjI [OF p conjI [OF pi pl1]]]
  note c9 = T [THEN conjunct2, THEN conjunct2, THEN conjunct2, THEN conjunct2, THEN conjunct2,
      THEN conjunct2, THEN conjunct2, THEN conjunct2, THEN mp, OF conjI [OF p n(3)]]
  have c3': "\<exists>b. np_argmin [Fin (3 / 2), Fin 1] = Inr b \<and>
      best_individual ex_res = [[0, 3 / 2], [0, 1]] ! b \<and>
      best_fitness ex_res = [Fin (3 / 2), Fin 1] ! b"
    using c3 by blast
  have c7': "\<exists>b w. np_argmin [fitness_pp ex_ind 1, fitness_pp ex_ind 1] = Inr b \<and>
      np_argmax [fitness_pp ex_ind 1, fitness_pp ex_ind 1] = Inr w \<and>
      t_hist (ex_hist 1) ! 0 = fst ([ex_ind, ex_ind] ! b) \<and>
      k_hist (ex_hist 1) ! 0 = snd ([ex_ind, ex_ind] ! b) \<and>
      best_fit_hist (ex_hist 1) ! 0 = [fitness_pp ex_ind 1, fitness_pp ex_ind 1] ! b \<and>
      worst_fit_hist (ex_hist 1) ! 0 = [fitness_pp ex_ind 1, fitness_pp ex_ind 1] ! w"
    using c7 by blast
  have c8': "\<exists>b. np_argmin [fitness_pp ex_ind 1, fitness_pp ex_ind 1] = Inr b \<and>
      (t_min, k_min) = [ex_ind, ex_ind] ! b"
    using c8 by blast
  have v: "best_fitness ex_res = Fin 1" "last (best_hist ex_res) = Fin (3 / 2)"
    by (simp_all add: ex_res_def)
  show ?thesis
    apply (intro conjI)
                        apply (rule r)
                        apply (rule c1 [THEN conjunct1])
                        apply (rule c1 [THEN conjunct2, THEN conjunct1])
                        apply (rule c1 [THEN conjunct2, THEN conjunct2, THEN conjunct1])
                       apply (rule c1 [THEN conjunct2, THEN conjunct2, THEN conjunct2,
          THEN conjunct1])
                      apply (rule c1 [THEN conjunct2, THEN conjunct2, THEN conjunct2,
          THEN conjunct2])
                     apply (rule i)
                    apply (rule l0)
                   apply (rule c2)
                  apply (rule l1)
                 apply (rule c3')
                apply (rule c4)
               apply (rule v(1))
              apply (rule v(2))
             apply (rule p)
            apply (rule c6 [THEN conjunct1])
           apply (rule c6 [THEN conjunct2, THEN conjunct2, THEN conjunct2, THEN conjunct1])
          apply (rule pi)
         apply (rule pl0)
        apply (rule c7')
       apply (rule pl1)
      apply (rule c8')
     apply (rule c9)
    done
qed

subsection \<open>Reproducibility\<close>

text \<open>
  The generator state \<open>g'\<close> is the state \<open>g\<close> after some number of draws: the outcomes
  still to come in \<open>g'\<close> are those of \<open>g\<close> without the first \<open>n\<close>.
\<close>

definition advanced :: "rng \<Rightarrow> rng \<Rightarrow> bool" where
  "advanced g g' \<longleftrightarrow> (\<exists>n. g' = sdrop n g)"




lemma advanced_stl: "advanced g (stl g)"
  unfolding advanced_def by (rule exI [of _ 1]) simp

lemma rand_advanced: "rand g = (u, g') \<Longrightarrow> advanced g g'"
  by (auto simp: rand_def advanced_stl)




























end
